theory Spec2Isabelle
  imports Complex_Main "HOL-Library.AList" "HOL-Library.Sublist"
begin

section \<open>Python values and built-ins\<close>

text \<open>
  A Python \<^verbatim>\<open>float\<close> is a finite number, \<^verbatim>\<open>inf\<close>, \<^verbatim>\<open>-inf\<close> or \<^verbatim>\<open>nan\<close>. A finite float is the real
  number it denotes, and the arithmetic on finite floats is that of the reals: rounding,
  and the overflow of a finite result to an infinity, are not represented. The infinities
  and NaN follow IEEE 754: NaN is absorbing, \<^verbatim>\<open>inf - inf\<close>, \<^verbatim>\<open>0 * inf\<close> and \<^verbatim>\<open>inf / inf\<close> are NaN,
  a finite number divided by an infinity is zero, and every comparison with NaN is false
  (so \<^verbatim>\<open>x != y\<close> is true). \<^verbatim>\<open>-0.0\<close> and \<^verbatim>\<open>0.0\<close> compare equal and are one value. Python raises
  \<^verbatim>\<open>ZeroDivisionError\<close> on a division by zero; the source divides by \<^verbatim>\<open>2.0\<close> and, under the
  guard \<^verbatim>\<open>v != 0.0\<close>, by \<^verbatim>\<open>v\<close> only, so the quotient by zero is never taken.
\<close>

datatype pyfloat = Finite real | PosInf | NegInf | NaN

instantiation pyfloat :: "{zero, one, plus, uminus, times, inverse, ord}"
begin

definition zero_pyfloat :: pyfloat where
  "zero_pyfloat = Finite 0"

definition one_pyfloat :: pyfloat where
  "one_pyfloat = Finite 1"

fun plus_pyfloat :: "pyfloat \<Rightarrow> pyfloat \<Rightarrow> pyfloat" where
  "plus_pyfloat (Finite a) (Finite b) = Finite (a + b)"
| "plus_pyfloat NaN y = NaN"
| "plus_pyfloat x NaN = NaN"
| "plus_pyfloat PosInf NegInf = NaN"
| "plus_pyfloat NegInf PosInf = NaN"
| "plus_pyfloat PosInf y = PosInf"
| "plus_pyfloat x PosInf = PosInf"
| "plus_pyfloat NegInf y = NegInf"
| "plus_pyfloat x NegInf = NegInf"

fun uminus_pyfloat :: "pyfloat \<Rightarrow> pyfloat" where
  "uminus_pyfloat (Finite a) = Finite (- a)"
| "uminus_pyfloat PosInf = NegInf"
| "uminus_pyfloat NegInf = PosInf"
| "uminus_pyfloat NaN = NaN"

fun times_pyfloat :: "pyfloat \<Rightarrow> pyfloat \<Rightarrow> pyfloat" where
  "times_pyfloat (Finite a) (Finite b) = Finite (a * b)"
| "times_pyfloat NaN y = NaN"
| "times_pyfloat x NaN = NaN"
| "times_pyfloat (Finite a) y = (if a = 0 then NaN else if 0 < a then y else - y)"
| "times_pyfloat x (Finite b) = (if b = 0 then NaN else if 0 < b then x else - x)"
| "times_pyfloat PosInf y = y"
| "times_pyfloat NegInf y = - y"

fun divide_pyfloat :: "pyfloat \<Rightarrow> pyfloat \<Rightarrow> pyfloat" where
  "divide_pyfloat (Finite a) (Finite b) = Finite (a / b)"
| "divide_pyfloat NaN y = NaN"
| "divide_pyfloat x NaN = NaN"
| "divide_pyfloat (Finite a) y = Finite 0"
| "divide_pyfloat x (Finite b) = (if b < 0 then - x else x)"
| "divide_pyfloat x y = NaN"

definition inverse_pyfloat :: "pyfloat \<Rightarrow> pyfloat" where
  "inverse_pyfloat x = divide (Finite 1) x"

fun less_pyfloat :: "pyfloat \<Rightarrow> pyfloat \<Rightarrow> bool" where
  "less_pyfloat (Finite a) (Finite b) = (a < b)"
| "less_pyfloat (Finite a) PosInf = True"
| "less_pyfloat NegInf (Finite b) = True"
| "less_pyfloat NegInf PosInf = True"
| "less_pyfloat x y = False"

definition less_eq_pyfloat :: "pyfloat \<Rightarrow> pyfloat \<Rightarrow> bool" where
  "less_eq_pyfloat x y = (x < y \<or> (x = y \<and> x \<noteq> NaN))"

instance ..

end

instance pyfloat :: semigroup_add
proof
  fix a b c :: pyfloat
  show "a + b + c = a + (b + c)"
    by (cases a; cases b; cases c) simp_all
qed

instance pyfloat :: numeral ..


text \<open>
  The price resolvers work on decoded JSON (\<^verbatim>\<open>dict\<close>, \<^verbatim>\<open>list\<close>, \<^verbatim>\<open>str\<close>, numbers,
  \<^verbatim>\<open>bool\<close>, \<^verbatim>\<open>None\<close>) and inspect it dynamically with \<^verbatim>\<open>.get\<close>, truthiness, \<^verbatim>\<open>float()\<close>
  and \<^verbatim>\<open>==\<close>. A \<^verbatim>\<open>dict\<close> is an association list in insertion order whose keys are
  distinct; a lookup takes the first entry of a key. Python's \<^verbatim>\<open>int\<close> and \<^verbatim>\<open>float\<close> are both
  \<open>JNum\<close>: an \<^verbatim>\<open>int\<close> is the finite number it denotes, of any size (a finite number too
  large for a float can only be an \<^verbatim>\<open>int\<close>); \<^verbatim>\<open>json.loads\<close> gives the floats \<^verbatim>\<open>inf\<close> and \<^verbatim>\<open>nan\<close>
  for \<^verbatim>\<open>Infinity\<close>, \<^verbatim>\<open>NaN\<close> and a literal such as \<^verbatim>\<open>1e999\<close>.
\<close>

datatype json =
    JNull
  | JBool bool
  | JNum pyfloat
  | JStr string
  | JList "json list"
  | JDict "(string \<times> json) list"

text \<open>
  Every exception of the source is a value. The \<^verbatim>\<open>RuntimeError\<close>s raised by the repository
  are told apart by their raise site (the message is in the comment); the others are the
  built-in exception classes, all subclasses of \<^verbatim>\<open>Exception\<close>.
\<close>

datatype error =
    UnknownToken string string    \<comment> \<open>\<^verbatim>\<open>Token not in spot_meta: base=.. quote=..\<close>\<close>
  | PairNotFound string string    \<comment> \<open>\<^verbatim>\<open>Spot pair not found: base/quote\<close>\<close>
  | NoLiquidity string string     \<comment> \<open>\<^verbatim>\<open>No liquidity on book for base/quote\<close>\<close>
  | NoPoolFound string string     \<comment> \<open>\<^verbatim>\<open>No suitable DexScreener pool for tokenA vs tokenB\<close>\<close>
  | UnexpectedPayload             \<comment> \<open>\<^verbatim>\<open>Unexpected RedStone payload type\<close>\<close>
  | NoUsableData string           \<comment> \<open>\<^verbatim>\<open>No usable data from endpoint\<close>\<close>
  | NoData string                 \<comment> \<open>\<^verbatim>\<open>No data from endpoint\<close>\<close>
  | ExhaustedRetries int "error option"
      \<comment> \<open>\<^verbatim>\<open>Failed to fetch RedStone prices after {retries} attempts: {last_err}\<close>\<close>
  | AttributeError
  | TypeError
  | KeyError
  | ValueError
  | IndexError
  | OverflowError
  | TransportError string         \<comment> \<open>raised by the HTTP client or the venue SDK\<close>

text \<open>
  The trace of a run: each entry to a resolver the properties speak about, each network
  request and each sleep, in the order they happen.
\<close>

datatype event =
    GetSpotMid string string      \<comment> \<open>entry to \<^verbatim>\<open>get_spot_mid(info, base, quote)\<close>\<close>
  | SpotMetaCall                  \<comment> \<open>\<^verbatim>\<open>info.spot_meta()\<close>\<close>
  | L2BookCall int                \<comment> \<open>\<^verbatim>\<open>info.post("/info", {"type": "l2Book", "asset": id})\<close>\<close>
  | GetPairMid string string      \<comment> \<open>entry to \<^verbatim>\<open>get_pair_mid_from_dexscreener(tokenA, tokenB)\<close>\<close>
  | DexGet string                 \<comment> \<open>\<^verbatim>\<open>requests.get(DEXSCREENER_BASE/token)\<close>\<close>
  | TryEndpoint string            \<comment> \<open>entry to \<^verbatim>\<open>_try_redstone_endpoint(endpoint, ..)\<close>\<close>
  | HttpGet string string string  \<comment> \<open>\<^verbatim>\<open>requests.get(url, params={key: value, "_": uuid})\<close>\<close>
  | Sleep real                    \<comment> \<open>\<^verbatim>\<open>time.sleep(seconds)\<close>\<close>

text \<open>
  What the code does not define itself is a parameter: the string parsers of \<^verbatim>\<open>float()\<close>
  and \<^verbatim>\<open>int()\<close>, \<^verbatim>\<open>str()\<close> of a value that is not a string, \<^verbatim>\<open>json.loads\<close>, and the answers
  of the network. An answer may depend on everything that happened before the request, so
  an upstream may change its answer from one call to the next. The timeouts and the
  cache-busting \<^verbatim>\<open>uuid\<close> only travel to the transport and are part of its answer.
\<close>

record env =
  float_of_str :: "string \<Rightarrow> pyfloat option"
  int_of_str :: "string \<Rightarrow> int option"
  str_of :: "json \<Rightarrow> string"
  json_loads :: "string \<Rightarrow> json option"
  info_spot_meta :: "event list \<Rightarrow> error + json"
  info_post_l2book :: "event list \<Rightarrow> int \<Rightarrow> error + json"
  dex_get_json :: "event list \<Rightarrow> string \<Rightarrow> error + json"
  http_get_json :: "event list \<Rightarrow> string \<Rightarrow> string \<Rightarrow> string \<Rightarrow> error + (int \<times> json)"

text \<open>Truthiness, \<^verbatim>\<open>a or b\<close>, \<^verbatim>\<open>d.get(k, default)\<close>, \<^verbatim>\<open>x[k]\<close>, \<^verbatim>\<open>x[0]\<close> and iteration.\<close>

fun py_truthy :: "json \<Rightarrow> bool" where
  "py_truthy JNull = False"
| "py_truthy (JBool b) = b"
| "py_truthy (JNum r) = (r \<noteq> 0)"
| "py_truthy (JStr s) = (s \<noteq> [])"
| "py_truthy (JList xs) = (xs \<noteq> [])"
| "py_truthy (JDict kvs) = (kvs \<noteq> [])"

definition py_or :: "json \<Rightarrow> json \<Rightarrow> json" where
  "py_or a b = (if py_truthy a then a else b)"

fun py_get :: "json \<Rightarrow> string \<Rightarrow> json \<Rightarrow> error + json" where
  "py_get (JDict kvs) k d = Inr (case map_of kvs k of Some v \<Rightarrow> v | None \<Rightarrow> d)"
| "py_get _ k d = Inl AttributeError"

fun py_getitem :: "json \<Rightarrow> string \<Rightarrow> error + json" where
  "py_getitem (JDict kvs) k = (case map_of kvs k of Some v \<Rightarrow> Inr v | None \<Rightarrow> Inl KeyError)"
| "py_getitem _ k = Inl TypeError"

fun py_first :: "json \<Rightarrow> error + json" where
  "py_first (JList xs) = (case xs of [] \<Rightarrow> Inl IndexError | x # _ \<Rightarrow> Inr x)"
| "py_first (JStr s) = (case s of [] \<Rightarrow> Inl IndexError | c # _ \<Rightarrow> Inr (JStr [c]))"
| "py_first (JDict kvs) = Inl KeyError"
| "py_first _ = Inl TypeError"

fun py_iter :: "json \<Rightarrow> error + json list" where
  "py_iter (JList xs) = Inr xs"
| "py_iter (JStr s) = Inr (map (\<lambda>c. JStr [c]) s)"
| "py_iter (JDict kvs) = Inr (map (\<lambda>(k, v). JStr k) kvs)"
| "py_iter _ = Inl TypeError"

text \<open>
  \<^verbatim>\<open>a == b\<close> on decoded JSON: \<^verbatim>\<open>True == 1\<close>, \<^verbatim>\<open>nan\<close> equal to nothing, lists by position, dicts by
  key.
\<close>

fun py_eq :: "json \<Rightarrow> json \<Rightarrow> bool" where
  "py_eq JNull JNull = True"
| "py_eq (JBool a) (JBool b) = (a = b)"
| "py_eq (JBool a) (JNum y) = ((if a then 1 else 0) = y)"
| "py_eq (JNum x) (JBool b) = (x = (if b then 1 else 0))"
| "py_eq (JNum x) (JNum y) = (x = y \<and> x \<noteq> NaN)"
| "py_eq (JStr s) (JStr t) = (s = t)"
| "py_eq (JList xs) (JList ys) = list_all2 py_eq xs ys"
| "py_eq (JDict a) (JDict b) =
     (length a = length b \<and>
      list_all (\<lambda>(k, v). case map_of b k of None \<Rightarrow> False | Some w \<Rightarrow> py_eq v w) a)"
| "py_eq _ _ = False"

text \<open>
  \<^verbatim>\<open>float(x)\<close>, \<^verbatim>\<open>int(x)\<close> (truncation towards zero) and \<^verbatim>\<open>str(x)\<close>. \<^verbatim>\<open>float\<close> of an \<^verbatim>\<open>int\<close> rounds
  to the nearest float and raises \<^verbatim>\<open>OverflowError\<close> when that is beyond the largest one, which
  is from \<open>2 ^ 1024 - 2 ^ 970\<close> on; \<^verbatim>\<open>float\<close> of a float is the float, also \<^verbatim>\<open>inf\<close> or \<^verbatim>\<open>nan\<close>, and the
  parser of strings accepts \<^verbatim>\<open>"inf"\<close> and \<^verbatim>\<open>"nan"\<close>. \<^verbatim>\<open>int\<close> raises \<^verbatim>\<open>ValueError\<close> on \<^verbatim>\<open>nan\<close> and
  \<^verbatim>\<open>OverflowError\<close> on an infinity.
\<close>

definition FLOAT_INT_LIMIT :: real where
  "FLOAT_INT_LIMIT = 2 ^ 1024 - 2 ^ 970"

fun py_float :: "env \<Rightarrow> json \<Rightarrow> error + pyfloat" where
  "py_float E (JNum x) =
     (case x of
        Finite r \<Rightarrow> if FLOAT_INT_LIMIT \<le> \<bar>r\<bar> then Inl OverflowError else Inr x
      | _ \<Rightarrow> Inr x)"
| "py_float E (JBool b) = Inr (if b then 1 else 0)"
| "py_float E (JStr s) = (case float_of_str E s of Some r \<Rightarrow> Inr r | None \<Rightarrow> Inl ValueError)"
| "py_float E _ = Inl TypeError"

fun py_int :: "env \<Rightarrow> json \<Rightarrow> error + int" where
  "py_int E (JNum x) =
     (case x of
        Finite r \<Rightarrow> Inr (if 0 \<le> r then \<lfloor>r\<rfloor> else \<lceil>r\<rceil>)
      | NaN \<Rightarrow> Inl ValueError
      | _ \<Rightarrow> Inl OverflowError)"
| "py_int E (JBool b) = Inr (if b then 1 else 0)"
| "py_int E (JStr s) = (case int_of_str E s of Some i \<Rightarrow> Inr i | None \<Rightarrow> Inl ValueError)"
| "py_int E _ = Inl TypeError"

fun py_str :: "env \<Rightarrow> json \<Rightarrow> string" where
  "py_str E (JStr s) = s"
| "py_str E JNull = ''None''"
| "py_str E (JBool b) = (if b then ''True'' else ''False'')"
| "py_str E x = str_of E x"

text \<open>\<^verbatim>\<open>s.lower()\<close>, \<^verbatim>\<open>s.upper()\<close> and \<^verbatim>\<open>s.strip()\<close> on ASCII text.\<close>

definition lower_char :: "char \<Rightarrow> char" where
  "lower_char c =
     (case map_of (zip ''ABCDEFGHIJKLMNOPQRSTUVWXYZ'' ''abcdefghijklmnopqrstuvwxyz'') c of
        Some d \<Rightarrow> d | None \<Rightarrow> c)"

definition upper_char :: "char \<Rightarrow> char" where
  "upper_char c =
     (case map_of (zip ''abcdefghijklmnopqrstuvwxyz'' ''ABCDEFGHIJKLMNOPQRSTUVWXYZ'') c of
        Some d \<Rightarrow> d | None \<Rightarrow> c)"

definition py_lower :: "string \<Rightarrow> string" where
  "py_lower s = map lower_char s"

definition py_upper :: "string \<Rightarrow> string" where
  "py_upper s = map upper_char s"

definition is_space :: "char \<Rightarrow> bool" where
  "is_space c = (of_char c \<in> {9, 10, 11, 12, 13, 28, 29, 30, 31, 32 :: nat})"

definition py_strip :: "string \<Rightarrow> string" where
  "py_strip s = rev (dropWhile is_space (rev (dropWhile is_space s)))"

section \<open>Spot mid price (\<^verbatim>\<open>hl_spot_prices.py\<close>)\<close>

definition SPOT_ASSET_OFFSET :: int where
  "SPOT_ASSET_OFFSET = 10000"

text \<open>
  \<^verbatim>\<open>_build_name_to_token_index\<close>: the loop over \<^verbatim>\<open>spot_meta.get("tokens", [])\<close>. The result
  is only ever looked up with a \<^verbatim>\<open>str\<close>, so a key that is a number or a bool is stored by
  Python and never found: the map keeps the string keys. A \<^verbatim>\<open>list\<close> or \<^verbatim>\<open>dict\<close> as a key is
  unhashable.
\<close>

fun build_tokens :: "json list \<Rightarrow> (string \<rightharpoonup> json) \<Rightarrow> error + (string \<rightharpoonup> json)" where
  "build_tokens [] out = Inr out"
| "build_tokens (t # ts) out =
     (case py_get t ''name'' JNull of
        Inl e \<Rightarrow> Inl e
      | Inr name \<Rightarrow>
          (case py_get t ''index'' JNull of
             Inl e \<Rightarrow> Inl e
           | Inr idx \<Rightarrow>
               if name \<noteq> JNull \<and> idx \<noteq> JNull then
                 (case name of
                    JStr s \<Rightarrow> build_tokens ts (out(s \<mapsto> idx))
                  | JList _ \<Rightarrow> Inl TypeError
                  | JDict _ \<Rightarrow> Inl TypeError
                  | _ \<Rightarrow> build_tokens ts out)
               else build_tokens ts out))"

definition build_name_to_token_index :: "json \<Rightarrow> error + (string \<rightharpoonup> json)" where
  "build_name_to_token_index spot_meta =
     (case py_get spot_meta ''tokens'' (JList []) of
        Inl e \<Rightarrow> Inl e
      | Inr tokens \<Rightarrow>
          (case py_iter tokens of
             Inl e \<Rightarrow> Inl e
           | Inr ts \<Rightarrow> build_tokens ts Map.empty))"

text \<open>
  The loop of \<^verbatim>\<open>find_spot_pair_index\<close> over the universe: the first entry whose
  \<^verbatim>\<open>baseTokenIndex\<close> and \<^verbatim>\<open>quoteTokenIndex\<close> equal the two token indices, in this order,
  decides. An entry without \<^verbatim>\<open>index\<close> leaves the loop (\<^verbatim>\<open>break\<close>) for the final \<^verbatim>\<open>raise\<close>.
\<close>

fun scan_universe :: "env \<Rightarrow> string \<Rightarrow> string \<Rightarrow> json \<Rightarrow> json \<Rightarrow> json list \<Rightarrow> error + int" where
  "scan_universe E base quote base_idx quote_idx [] = Inl (PairNotFound base quote)"
| "scan_universe E base quote base_idx quote_idx (u # us) =
     (case py_get u ''baseTokenIndex'' JNull of
        Inl e \<Rightarrow> Inl e
      | Inr b \<Rightarrow>
          if py_eq b base_idx then
            (case py_get u ''quoteTokenIndex'' JNull of
               Inl e \<Rightarrow> Inl e
             | Inr q \<Rightarrow>
                 if py_eq q quote_idx then
                   (case py_get u ''index'' JNull of
                      Inl e \<Rightarrow> Inl e
                    | Inr pair_index \<Rightarrow>
                        if pair_index = JNull then Inl (PairNotFound base quote)
                        else py_int E pair_index)
                 else scan_universe E base quote base_idx quote_idx us)
          else scan_universe E base quote base_idx quote_idx us)"

text \<open>
  The test of the loop on one entry:
  \<^verbatim>\<open>u.get("baseTokenIndex") == base_idx and u.get("quoteTokenIndex") == quote_idx\<close>.
\<close>

definition pair_entry :: "json \<Rightarrow> json \<Rightarrow> json \<Rightarrow> bool" where
  "pair_entry u base_idx quote_idx =
     (case (py_get u ''baseTokenIndex'' JNull, py_get u ''quoteTokenIndex'' JNull) of
        (Inr b, Inr q) \<Rightarrow> py_eq b base_idx \<and> py_eq q quote_idx
      | _ \<Rightarrow> False)"

definition pair_index_of :: "env \<Rightarrow> json \<Rightarrow> string \<Rightarrow> string \<Rightarrow> error + int" where
  "pair_index_of E sm base quote =
     (case build_name_to_token_index sm of
        Inl e \<Rightarrow> Inl e
      | Inr name_to_idx \<Rightarrow>
          (case (name_to_idx base, name_to_idx quote) of
             (Some base_idx, Some quote_idx) \<Rightarrow>
               (case py_get sm ''universe'' (JList []) of
                  Inl e \<Rightarrow> Inl e
                | Inr universe \<Rightarrow>
                    (case py_iter universe of
                       Inl e \<Rightarrow> Inl e
                     | Inr us \<Rightarrow> scan_universe E base quote base_idx quote_idx us))
           | _ \<Rightarrow> Inl (UnknownToken base quote)))"

definition find_spot_pair_index ::
  "env \<Rightarrow> string \<Rightarrow> string \<Rightarrow> event list \<Rightarrow> (error + int) \<times> event list" where
  "find_spot_pair_index E base quote tr =
     (case info_spot_meta E tr of
        Inl e \<Rightarrow> (Inl e, tr @ [SpotMetaCall])
      | Inr sm \<Rightarrow> (pair_index_of E sm base quote, tr @ [SpotMetaCall]))"

text \<open>
  \<^verbatim>\<open>get_spot_mid\<close>: the two sides of the book are
  \<^verbatim>\<open>ob.get("levels") or ob.get("bids") or []\<close> and
  \<^verbatim>\<open>ob.get("levels_ask") or ob.get("asks") or []\<close>; the best level is the first one.
\<close>

definition book_side :: "json \<Rightarrow> string \<Rightarrow> string \<Rightarrow> error + json" where
  "book_side ob k1 k2 =
     (case py_get ob k1 JNull of
        Inl e \<Rightarrow> Inl e
      | Inr a \<Rightarrow>
          if py_truthy a then Inr a
          else (case py_get ob k2 JNull of
                  Inl e \<Rightarrow> Inl e
                | Inr b \<Rightarrow> Inr (py_or b (JList []))))"

definition price_field :: "env \<Rightarrow> json \<Rightarrow> error + pyfloat" where
  "price_field E level =
     (case py_getitem level ''px'' of
        Inl e \<Rightarrow> Inl e
      | Inr px \<Rightarrow> py_float E px)"

definition level_px :: "env \<Rightarrow> json \<Rightarrow> error + pyfloat" where
  "level_px E levels =
     (case py_first levels of
        Inl e \<Rightarrow> Inl e
      | Inr level \<Rightarrow> price_field E level)"

definition mid_of_book :: "env \<Rightarrow> string \<Rightarrow> string \<Rightarrow> json \<Rightarrow> error + pyfloat" where
  "mid_of_book E base quote ob =
     (case book_side ob ''levels'' ''bids'' of
        Inl e \<Rightarrow> Inl e
      | Inr bids \<Rightarrow>
          (case book_side ob ''levels_ask'' ''asks'' of
             Inl e \<Rightarrow> Inl e
           | Inr asks \<Rightarrow>
               if \<not> py_truthy bids \<or> \<not> py_truthy asks then Inl (NoLiquidity base quote)
               else
                 (case level_px E bids of
                    Inl e \<Rightarrow> Inl e
                  | Inr best_bid \<Rightarrow>
                      (case level_px E asks of
                         Inl e \<Rightarrow> Inl e
                       | Inr best_ask \<Rightarrow> Inr ((best_bid + best_ask) / 2)))))"

definition get_spot_mid ::
  "env \<Rightarrow> string \<Rightarrow> string \<Rightarrow> event list \<Rightarrow> (error + pyfloat) \<times> event list" where
  "get_spot_mid E base quote tr =
     (case find_spot_pair_index E base quote (tr @ [GetSpotMid base quote]) of
        (Inl e, tr1) \<Rightarrow> (Inl e, tr1)
      | (Inr pair_index, tr1) \<Rightarrow>
          (let asset_id = SPOT_ASSET_OFFSET + pair_index in
           case info_post_l2book E tr1 asset_id of
             Inl e \<Rightarrow> (Inl e, tr1 @ [L2BookCall asset_id])
           | Inr ob \<Rightarrow> (mid_of_book E base quote ob, tr1 @ [L2BookCall asset_id])))"

section \<open>DEX pool price (\<^verbatim>\<open>hyper_evm_prices.py\<close>)\<close>

text \<open>
  \<^verbatim>\<open>_load_pairs_for_token\<close>: the request, \<^verbatim>\<open>raise_for_status\<close> and the decoding of the body
  are one answer of the transport; then \<^verbatim>\<open>data.get("pairs", []) or []\<close>.
\<close>

definition load_pairs_for_token ::
  "env \<Rightarrow> string \<Rightarrow> event list \<Rightarrow> (error + json) \<times> event list" where
  "load_pairs_for_token E token_addr tr =
     (case dex_get_json E tr token_addr of
        Inl e \<Rightarrow> (Inl e, tr @ [DexGet token_addr])
      | Inr data \<Rightarrow>
          (case py_get data ''pairs'' (JList []) of
             Inl e \<Rightarrow> (Inl e, tr @ [DexGet token_addr])
           | Inr ps \<Rightarrow> (Inr (py_or ps (JList [])), tr @ [DexGet token_addr])))"

text \<open>\<^verbatim>\<open>(p.get(k) or {}).get("address", "").lower()\<close>\<close>

definition token_address :: "json \<Rightarrow> string \<Rightarrow> error + string" where
  "token_address p k =
     (case py_get p k JNull of
        Inl e \<Rightarrow> Inl e
      | Inr t \<Rightarrow>
          (case py_get (py_or t (JDict [])) ''address'' (JStr []) of
             Inl e \<Rightarrow> Inl e
           | Inr a \<Rightarrow> (case a of JStr s \<Rightarrow> Inr (py_lower s) | _ \<Rightarrow> Inl AttributeError)))"

text \<open>\<^verbatim>\<open>p.get("priceNative") or p.get("price")\<close>\<close>

definition pool_price_str :: "json \<Rightarrow> error + json" where
  "pool_price_str p =
     (case py_get p ''priceNative'' JNull of
        Inl e \<Rightarrow> Inl e
      | Inr a \<Rightarrow> if py_truthy a then Inr a else py_get p ''price'' JNull)"

text \<open>\<^verbatim>\<open>float((p.get("liquidity") or {}).get("usd", 0.0))\<close>, and \<open>0.0\<close> on any exception.\<close>

definition pool_liq_usd :: "env \<Rightarrow> json \<Rightarrow> pyfloat" where
  "pool_liq_usd E p =
     (case py_get p ''liquidity'' JNull of
        Inl e \<Rightarrow> 0
      | Inr l \<Rightarrow>
          (case py_get (py_or l (JDict [])) ''usd'' (JNum 0) of
             Inl e \<Rightarrow> 0
           | Inr u \<Rightarrow> (case py_float E u of Inl e \<Rightarrow> 0 | Inr r \<Rightarrow> r)))"

text \<open>
  The two orientation tests of the loop body. Each gives the value the body returns, or
  \<open>None\<close> when the body goes on: the test fails, \<^verbatim>\<open>float\<close> raises (the exception is
  swallowed), or the inverted price is zero.
\<close>

definition exact_orientation ::
  "env \<Rightarrow> string \<Rightarrow> string \<Rightarrow> string \<Rightarrow> string \<Rightarrow> json \<Rightarrow> pyfloat option" where
  "exact_orientation E tokenA tB base quote price_str =
     (if base = py_lower tokenA \<and> quote = tB \<and> py_truthy price_str then
        (case py_float E price_str of Inr v \<Rightarrow> Some v | Inl e \<Rightarrow> None)
      else None)"

definition inverted_orientation ::
  "env \<Rightarrow> string \<Rightarrow> string \<Rightarrow> string \<Rightarrow> string \<Rightarrow> json \<Rightarrow> pyfloat option" where
  "inverted_orientation E tokenA tB base quote price_str =
     (if base = tB \<and> quote = py_lower tokenA \<and> py_truthy price_str then
        (case py_float E price_str of
           Inr v \<Rightarrow> if v \<noteq> 0 then Some (1 / v) else None
         | Inl e \<Rightarrow> None)
      else None)"

text \<open>
  One pass of the loop body on pool \<open>p\<close> with the fallback state \<open>(best_liq, best_price)\<close>:
  the function returns, an exception leaves it, or the loop goes on with a new state.
\<close>

datatype scan_step = Return pyfloat | Raise error | Next pyfloat "json option"

definition pool_step ::
  "env \<Rightarrow> string \<Rightarrow> string \<Rightarrow> json \<Rightarrow> pyfloat \<Rightarrow> json option \<Rightarrow> scan_step" where
  "pool_step E tokenA tB p best_liq best_price =
     (case token_address p ''baseToken'' of
        Inl e \<Rightarrow> Raise e
      | Inr base \<Rightarrow>
          (case token_address p ''quoteToken'' of
             Inl e \<Rightarrow> Raise e
           | Inr quote \<Rightarrow>
               if base = [] \<or> quote = [] then Next best_liq best_price
               else
                 (case pool_price_str p of
                    Inl e \<Rightarrow> Raise e
                  | Inr price_str \<Rightarrow>
                      (let liq_usd = pool_liq_usd E p in
                       case exact_orientation E tokenA tB base quote price_str of
                         Some v \<Rightarrow> Return v
                       | None \<Rightarrow>
                           (case inverted_orientation E tokenA tB base quote price_str of
                              Some v \<Rightarrow> Return v
                            | None \<Rightarrow>
                                if liq_usd > best_liq \<and> py_truthy price_str
                                then Next liq_usd (Some price_str)
                                else Next best_liq best_price)))))"

fun scan_pools ::
  "env \<Rightarrow> string \<Rightarrow> string \<Rightarrow> json list \<Rightarrow> pyfloat \<Rightarrow> json option \<Rightarrow> error + pyfloat" where
  "scan_pools E tokenA tokenB [] best_liq best_price =
     (case best_price of
        None \<Rightarrow> Inl (NoPoolFound tokenA tokenB)
      | Some bp \<Rightarrow>
          (case py_float E bp of
             Inr v \<Rightarrow> Inr v
           | Inl e \<Rightarrow> Inl (NoPoolFound tokenA tokenB)))"
| "scan_pools E tokenA tokenB (p # ps) best_liq best_price =
     (case pool_step E tokenA (py_lower tokenB) p best_liq best_price of
        Return v \<Rightarrow> Inr v
      | Raise e \<Rightarrow> Inl e
      | Next bl bp \<Rightarrow> scan_pools E tokenA tokenB ps bl bp)"

definition get_pair_mid_from_dexscreener ::
  "env \<Rightarrow> string \<Rightarrow> string \<Rightarrow> event list \<Rightarrow> (error + pyfloat) \<times> event list" where
  "get_pair_mid_from_dexscreener E tokenA tokenB tr =
     (case load_pairs_for_token E tokenA (tr @ [GetPairMid tokenA tokenB]) of
        (Inl e, tr1) \<Rightarrow> (Inl e, tr1)
      | (Inr pairs, tr1) \<Rightarrow>
          (case py_iter pairs of
             Inl e \<Rightarrow> (Inl e, tr1)
           | Inr ps \<Rightarrow> (scan_pools E tokenA tokenB ps (- 1) None, tr1)))"

text \<open>
  Predicates on one pool record, for stating the properties of the scan: the price the
  loop body would parse from the pool (its selected price field is non-empty and
  \<^verbatim>\<open>float\<close> accepts it), whether the selected price field is non-empty, whether reading
  the two addresses raises nothing, whether both addresses are non-empty, and whether the
  body goes on to the next pool (it neither returns nor raises).
\<close>

definition pool_parsed_price :: "env \<Rightarrow> json \<Rightarrow> pyfloat option" where
  "pool_parsed_price E p =
     (case pool_price_str p of
        Inl e \<Rightarrow> None
      | Inr price_str \<Rightarrow>
          if py_truthy price_str then
            (case py_float E price_str of Inr v \<Rightarrow> Some v | Inl e \<Rightarrow> None)
          else None)"

definition pool_has_price :: "json \<Rightarrow> bool" where
  "pool_has_price p = (case pool_price_str p of Inl e \<Rightarrow> False | Inr price_str \<Rightarrow> py_truthy price_str)"

definition well_formed_pool :: "json \<Rightarrow> bool" where
  "well_formed_pool p =
     (case (token_address p ''baseToken'', token_address p ''quoteToken'') of
        (Inr base, Inr quote) \<Rightarrow> True
      | _ \<Rightarrow> False)"

definition pool_has_addresses :: "json \<Rightarrow> bool" where
  "pool_has_addresses p =
     (case (token_address p ''baseToken'', token_address p ''quoteToken'') of
        (Inr base, Inr quote) \<Rightarrow> base \<noteq> [] \<and> quote \<noteq> []
      | _ \<Rightarrow> False)"

definition passes :: "env \<Rightarrow> string \<Rightarrow> string \<Rightarrow> json \<Rightarrow> bool" where
  "passes E tokenA tokenB p =
     (case pool_step E tokenA (py_lower tokenB) p 0 None of Next bl bp \<Rightarrow> True | _ \<Rightarrow> False)"

text \<open>
  The fallback candidate of a pool list, for stating when the scan fails: among the pools
  with both addresses, a non-empty selected price field and a USD liquidity above \<open>-1\<close>,
  the pool of highest liquidity, the earliest of them on a tie.
\<close>

definition eligible :: "env \<Rightarrow> json \<Rightarrow> bool" where
  "eligible E p = (pool_has_addresses p \<and> pool_has_price p \<and> pool_liq_usd E p > - 1)"

fun highest_liquidity :: "env \<Rightarrow> json list \<Rightarrow> json option" where
  "highest_liquidity E [] = None"
| "highest_liquidity E (p # ps) =
     (case highest_liquidity E ps of
        None \<Rightarrow> Some p
      | Some q \<Rightarrow> if pool_liq_usd E q > pool_liq_usd E p then Some q else Some p)"

definition fallback_candidate :: "env \<Rightarrow> json list \<Rightarrow> json option" where
  "fallback_candidate E ps = highest_liquidity E (filter (eligible E) ps)"

section \<open>Stable factor (\<^verbatim>\<open>stable_fx.py\<close>)\<close>

text \<open>
  \<^verbatim>\<open>preferred_quotes\<close> is iterated with \<^verbatim>\<open>for q in preferred_quotes\<close>: a list or tuple of
  strings gives its elements, a bare string gives its characters. The default of the
  source is \<^verbatim>\<open>("FEUSD")\<close>, a parenthesised string.
\<close>

datatype quotes = QuoteList "string list" | QuoteStr string

fun iter_quotes :: "quotes \<Rightarrow> string list" where
  "iter_quotes (QuoteList qs) = qs"
| "iter_quotes (QuoteStr s) = map (\<lambda>c. [c]) s"

definition default_preferred_quotes :: quotes where
  "default_preferred_quotes = QuoteStr ''FEUSD''"

text \<open>
  Tier A, the loop over the quotes: \<^verbatim>\<open>return get_spot_mid(info, symbol, q)\<close> under
  \<^verbatim>\<open>except Exception\<close>, which goes on to the next quote (the exception is stored in
  \<^verbatim>\<open>last_err\<close>, which nothing reads).
\<close>

fun spot_tier ::
  "env \<Rightarrow> string \<Rightarrow> string list \<Rightarrow> event list \<Rightarrow> pyfloat option \<times> event list" where
  "spot_tier E symbol [] tr = (None, tr)"
| "spot_tier E symbol (q # qs) tr =
     (case get_spot_mid E symbol q tr of
        (Inr v, tr1) \<Rightarrow> (Some v, tr1)
      | (Inl e, tr1) \<Rightarrow> spot_tier E symbol qs tr1)"

text \<open>
  \<^verbatim>\<open>evm_addresses and symbol in evm_addresses and evm_usd_reference in evm_addresses\<close>
\<close>

definition dex_available :: "(string \<times> string) list option \<Rightarrow> string \<Rightarrow> string \<Rightarrow> bool" where
  "dex_available evm_addresses symbol evm_usd_reference =
     (case evm_addresses of
        None \<Rightarrow> False
      | Some m \<Rightarrow> m \<noteq> [] \<and> map_of m symbol \<noteq> None \<and> map_of m evm_usd_reference \<noteq> None)"

definition resolve_stable_usd_factor ::
  "env \<Rightarrow> string \<Rightarrow> quotes \<Rightarrow> (string \<times> string) list option \<Rightarrow> string \<Rightarrow> event list
     \<Rightarrow> (error + pyfloat) \<times> event list" where
  "resolve_stable_usd_factor E symbol preferred_quotes evm_addresses evm_usd_reference tr =
     (case spot_tier E symbol (iter_quotes preferred_quotes) tr of
        (Some v, tr1) \<Rightarrow> (Inr v, tr1)
      | (None, tr1) \<Rightarrow>
          if dex_available evm_addresses symbol evm_usd_reference then
            (case evm_addresses of
               None \<Rightarrow> (Inl TypeError, tr1)
             | Some m \<Rightarrow>
                 (case (map_of m symbol, map_of m evm_usd_reference) of
                    (Some a, Some b) \<Rightarrow>
                      (case get_pair_mid_from_dexscreener E a b tr1 of
                         (Inr v, tr2) \<Rightarrow> (Inr v, tr2)
                       | (Inl e, tr2) \<Rightarrow> (Inr 1, tr2))
                  | _ \<Rightarrow> (Inl KeyError, tr1)))
          else (Inr 1, tr1))"

text \<open>
  For stating what the tiers do in one run: the quotes \<open>qs\<close> all fail in the run from the
  trace \<open>tr\<close> when \<^verbatim>\<open>get_spot_mid\<close>, called for each of them in turn, on the trace the call
  before it has left, raises every time; \<open>spot_failures\<close> then gives the trace after the
  last of these calls, and \<open>None\<close> when one of them returns a value.
\<close>

fun spot_failures :: "env \<Rightarrow> string \<Rightarrow> string list \<Rightarrow> event list \<Rightarrow> event list option" where
  "spot_failures E symbol [] tr = Some tr"
| "spot_failures E symbol (q # qs) tr =
     (case get_spot_mid E symbol q tr of
        (Inl e, tr1) \<Rightarrow> spot_failures E symbol qs tr1
      | (Inr v, tr1) \<Rightarrow> None)"

text \<open>The calls of \<^verbatim>\<open>get_spot_mid\<close> recorded in a trace, as (base, quote), in order.\<close>

fun spot_calls :: "event list \<Rightarrow> (string \<times> string) list" where
  "spot_calls [] = []"
| "spot_calls (GetSpotMid base quote # es) = (base, quote) # spot_calls es"
| "spot_calls (e # es) = spot_calls es"

section \<open>Price fetcher (\<^verbatim>\<open>redstone_prices.py\<close>)\<close>

definition REDSTONE_PRICE_ENDPOINTS :: "string list" where
  "REDSTONE_PRICE_ENDPOINTS =
     [''https://api.redstone.finance/prices'',
      ''https://oracle-gateway-1.a.redstone.finance/prices'',
      ''https://oracle-gateway-2.a.redstone.finance/prices'']"

text \<open>An entry \<^verbatim>\<open>{"value": val, "timestamp": ts, "provider": provider}\<close> of the result.\<close>

record price_entry =
  pe_value :: pyfloat
  pe_timestamp :: json
  pe_provider :: string

type_synonym prices = "(string \<times> price_entry) list"

text \<open>
  \<^verbatim>\<open>_normalize_rs_payload\<close>. A text that looks like an object or an array is decoded
  (\<open>json_loads\<close> gives \<open>None\<close> where \<^verbatim>\<open>json.loads\<close> raises, and the text is kept); a list
  is returned as it is; of a dict keyed by symbol, the entries that are dicts with a
  \<^verbatim>\<open>value\<close> key are rebuilt as records.
\<close>

definition looks_like_json :: "string \<Rightarrow> bool" where
  "looks_like_json txt =
     (txt \<noteq> [] \<and>
      ((hd txt = CHR ''{'' \<and> last txt = CHR ''}'') \<or> (hd txt = CHR ''['' \<and> last txt = CHR '']'')))"

fun dict_records :: "(string \<times> json) list \<Rightarrow> json list" where
  "dict_records [] = []"
| "dict_records ((smb, obj) # rest) =
     (case obj of
        JDict kvs \<Rightarrow>
          (case map_of kvs ''value'' of
             Some v \<Rightarrow>
               JDict [(''symbol'', JStr smb),
                      (''value'', v),
                      (''timestamp'', case map_of kvs ''timestamp'' of Some t \<Rightarrow> t | None \<Rightarrow> JNull),
                      (''provider'', case map_of kvs ''provider'' of
                                       Some p \<Rightarrow> p | None \<Rightarrow> JStr ''redstone'')]
               # dict_records rest
           | None \<Rightarrow> dict_records rest)
      | _ \<Rightarrow> dict_records rest)"

definition decode_text :: "env \<Rightarrow> json \<Rightarrow> json" where
  "decode_text E data =
     (case data of
        JStr s \<Rightarrow>
          (let txt = py_strip s in
           if looks_like_json txt then
             (case json_loads E txt of Some d \<Rightarrow> d | None \<Rightarrow> data)
           else data)
      | _ \<Rightarrow> data)"

definition normalize_rs_payload :: "env \<Rightarrow> json \<Rightarrow> error + json list" where
  "normalize_rs_payload E data =
     (case decode_text E data of
        JList xs \<Rightarrow> Inr xs
      | JDict kvs \<Rightarrow>
          (let out = dict_records kvs in
           if out \<noteq> [] then Inr out else Inl UnexpectedPayload)
      | _ \<Rightarrow> Inl UnexpectedPayload)"

text \<open>
  The body of the batch loop on one item, under its \<^verbatim>\<open>try\<close>: the key and the entry it
  stores, or \<open>None\<close> when an exception makes the loop skip the item.
\<close>

definition batch_item :: "env \<Rightarrow> json \<Rightarrow> (string \<times> price_entry) option" where
  "batch_item E item =
     (case py_getitem item ''symbol'' of
        Inl e \<Rightarrow> None
      | Inr s \<Rightarrow>
          (case py_getitem item ''value'' of
             Inl e \<Rightarrow> None
           | Inr v \<Rightarrow>
               (case py_float E v of
                  Inl e \<Rightarrow> None
                | Inr val \<Rightarrow>
                    (case py_get item ''timestamp'' JNull of
                       Inl e \<Rightarrow> None
                     | Inr ts \<Rightarrow>
                         (case py_get item ''provider'' (JStr ''redstone'') of
                            Inl e \<Rightarrow> None
                          | Inr p \<Rightarrow>
                              Some (py_upper (py_str E s),
                                    \<lparr>pe_value = val, pe_timestamp = ts,
                                     pe_provider = py_str E p\<rparr>))))))"

fun batch_collect :: "env \<Rightarrow> json list \<Rightarrow> prices \<Rightarrow> prices" where
  "batch_collect E [] out = out"
| "batch_collect E (item # items) out =
     batch_collect E items
       (case batch_item E item of
          Some (smb, entry) \<Rightarrow> AList.update smb entry out
        | None \<Rightarrow> out)"

text \<open>
  The batch branch: with status 200, a payload that normalises and at least one stored
  entry, the function returns \<open>out\<close>; in every other case it falls through.
\<close>

definition batch_result :: "env \<Rightarrow> int \<Rightarrow> json \<Rightarrow> prices option" where
  "batch_result E status data =
     (if status = 200 then
        (case normalize_rs_payload E data of
           Inl e \<Rightarrow> None
         | Inr normalized \<Rightarrow>
             (let out = batch_collect E normalized [] in
              if out \<noteq> [] then Some out else None))
      else None)"

text \<open>The per-symbol loop: the first item of the answer that carries the symbol.\<close>

fun first_match :: "env \<Rightarrow> string \<Rightarrow> json list \<Rightarrow> price_entry option" where
  "first_match E smb [] = None"
| "first_match E smb (item # items) =
     (case py_get item ''symbol'' (JStr []) of
        Inl e \<Rightarrow> first_match E smb items
      | Inr s \<Rightarrow>
          if py_upper (py_str E s) \<noteq> smb then first_match E smb items
          else
            (case py_getitem item ''value'' of
               Inl e \<Rightarrow> first_match E smb items
             | Inr v \<Rightarrow>
                 (case py_float E v of
                    Inl e \<Rightarrow> first_match E smb items
                  | Inr val \<Rightarrow>
                      (case py_get item ''timestamp'' JNull of
                         Inl e \<Rightarrow> first_match E smb items
                       | Inr ts \<Rightarrow>
                           (case py_get item ''provider'' (JStr ''redstone'') of
                              Inl e \<Rightarrow> first_match E smb items
                            | Inr p \<Rightarrow>
                                Some \<lparr>pe_value = val, pe_timestamp = ts,
                                      pe_provider = py_str E p\<rparr>)))))"

fun per_symbol ::
  "env \<Rightarrow> string \<Rightarrow> string list \<Rightarrow> prices \<Rightarrow> event list \<Rightarrow> (error + prices) \<times> event list" where
  "per_symbol E endpoint [] out tr = (Inr out, tr)"
| "per_symbol E endpoint (smb # smbs) out tr =
     (case http_get_json E tr endpoint ''symbol'' smb of
        Inl e \<Rightarrow> (Inl e, tr @ [HttpGet endpoint ''symbol'' smb])
      | Inr (status, data) \<Rightarrow>
          if status \<noteq> 200 then
            per_symbol E endpoint smbs out (tr @ [HttpGet endpoint ''symbol'' smb])
          else
            (case normalize_rs_payload E data of
               Inl e \<Rightarrow> per_symbol E endpoint smbs out (tr @ [HttpGet endpoint ''symbol'' smb])
             | Inr normalized \<Rightarrow>
                 per_symbol E endpoint smbs
                   (case first_match E smb normalized of
                      Some entry \<Rightarrow> AList.update smb entry out
                    | None \<Rightarrow> out)
                   (tr @ [HttpGet endpoint ''symbol'' smb])))"

definition wanted_symbols :: "string list \<Rightarrow> string list" where
  "wanted_symbols symbols = map (\<lambda>s. py_upper (py_strip s)) (filter (\<lambda>s. py_strip s \<noteq> []) symbols)"

fun py_join :: "string \<Rightarrow> string list \<Rightarrow> string" where
  "py_join sep [] = []"
| "py_join sep [x] = x"
| "py_join sep (x # y # ys) = x @ sep @ py_join sep (y # ys)"

definition try_redstone_endpoint ::
  "env \<Rightarrow> string \<Rightarrow> string list \<Rightarrow> event list \<Rightarrow> (error + prices) \<times> event list" where
  "try_redstone_endpoint E endpoint symbols tr =
     (let tr0 = tr @ [TryEndpoint endpoint]; wanted = wanted_symbols symbols in
      if wanted = [] then (Inr [], tr0)
      else
        (case http_get_json E tr0 endpoint ''symbols'' (py_join '','' wanted) of
           Inl e \<Rightarrow> (Inl e, tr0 @ [HttpGet endpoint ''symbols'' (py_join '','' wanted)])
         | Inr (status, data) \<Rightarrow>
             (case batch_result E status data of
                Some out \<Rightarrow> (Inr out, tr0 @ [HttpGet endpoint ''symbols'' (py_join '','' wanted)])
              | None \<Rightarrow>
                  (case per_symbol E endpoint wanted []
                          (tr0 @ [HttpGet endpoint ''symbols'' (py_join '','' wanted)]) of
                     (Inl e, tr2) \<Rightarrow> (Inl e, tr2)
                   | (Inr out, tr2) \<Rightarrow>
                       if out \<noteq> [] then (Inr out, tr2)
                       else (Inl (NoUsableData endpoint), tr2)))))"

text \<open>
  The delay \<^verbatim>\<open>retry_base_delay * (2 ** (attempt - 1))\<close>: the power is an \<^verbatim>\<open>int\<close>, and the
  product of a float and an \<^verbatim>\<open>int\<close> converts the \<^verbatim>\<open>int\<close> to a float first, which raises
  \<^verbatim>\<open>OverflowError\<close> from \<open>2 ^ 1024\<close> on.
\<close>

definition int_to_float :: "int \<Rightarrow> error + pyfloat" where
  "int_to_float i =
     (if FLOAT_INT_LIMIT \<le> \<bar>real_of_int i\<bar> then Inl OverflowError
      else Inr (Finite (real_of_int i)))"

definition retry_delay :: "pyfloat \<Rightarrow> int \<Rightarrow> error + pyfloat" where
  "retry_delay retry_base_delay attempt =
     (case int_to_float (2 ^ nat (attempt - 1)) of
        Inl e \<Rightarrow> Inl e
      | Inr f \<Rightarrow> Inr (retry_base_delay * f))"

text \<open>
  \<^verbatim>\<open>time.sleep(secs)\<close> converts the length to a count of nanoseconds in 64 bits and raises
  \<^verbatim>\<open>ValueError\<close> on NaN and \<^verbatim>\<open>OverflowError\<close> on a length beyond \<open>2 ^ 63\<close> nanoseconds (about
  \<open>9.2e9\<close> seconds) or infinite; then it raises \<^verbatim>\<open>ValueError\<close> on a negative length. It
  gives the number of seconds slept.
\<close>

definition SLEEP_MAX :: real where
  "SLEEP_MAX = 2 ^ 63 / 10 ^ 9"

definition py_sleep :: "pyfloat \<Rightarrow> error + real" where
  "py_sleep secs =
     (case secs of
        NaN \<Rightarrow> Inl ValueError
      | Finite s \<Rightarrow>
          if SLEEP_MAX < \<bar>s\<bar> then Inl OverflowError
          else if s < 0 then Inl ValueError
          else Inr s
      | _ \<Rightarrow> Inl OverflowError)"

text \<open>
  \<^verbatim>\<open>fetch_redstone_prices\<close>. The inner \<^verbatim>\<open>for ep in eps\<close> returns the first non-empty
  result; an empty result or an exception becomes \<^verbatim>\<open>last_err\<close>. After each pass
  \<^verbatim>\<open>attempt\<close> is incremented and \<^verbatim>\<open>time.sleep(retry_base_delay * (2 ** (attempt - 1)))\<close>
  runs, outside any \<^verbatim>\<open>try\<close>: an exception of the product or of the sleep leaves the
  function.
\<close>

fun scan_endpoints ::
  "env \<Rightarrow> string list \<Rightarrow> string list \<Rightarrow> error option \<Rightarrow> event list
     \<Rightarrow> (prices option \<times> error option) \<times> event list" where
  "scan_endpoints E symbols [] last_err tr = ((None, last_err), tr)"
| "scan_endpoints E symbols (ep # eps) last_err tr =
     (case try_redstone_endpoint E ep symbols tr of
        (Inr result, tr1) \<Rightarrow>
          if result \<noteq> [] then ((Some result, last_err), tr1)
          else scan_endpoints E symbols eps (Some (NoData ep)) tr1
      | (Inl e, tr1) \<Rightarrow> scan_endpoints E symbols eps (Some e) tr1)"

function fetch_loop ::
  "env \<Rightarrow> string list \<Rightarrow> string list \<Rightarrow> int \<Rightarrow> pyfloat \<Rightarrow> int \<Rightarrow> error option \<Rightarrow> event list
     \<Rightarrow> (error + prices) \<times> event list" where
  "fetch_loop E symbols eps retries retry_base_delay attempt last_err tr =
     (if attempt < retries then
        (case scan_endpoints E symbols eps last_err tr of
           ((Some result, last_err1), tr1) \<Rightarrow> (Inr result, tr1)
         | ((None, last_err1), tr1) \<Rightarrow>
             (case retry_delay retry_base_delay (attempt + 1) of
                Inl e \<Rightarrow> (Inl e, tr1)
              | Inr delay \<Rightarrow>
                  (case py_sleep delay of
                     Inl e \<Rightarrow> (Inl e, tr1)
                   | Inr secs \<Rightarrow>
                       fetch_loop E symbols eps retries retry_base_delay (attempt + 1) last_err1
                         (tr1 @ [Sleep secs]))))
      else (Inl (ExhaustedRetries retries last_err), tr))"
  by pat_completeness auto
termination
  by (relation "measure (\<lambda>(E, symbols, eps, retries, d, attempt, last_err, tr). nat (retries - attempt))") auto

declare fetch_loop.simps [simp del]

text \<open>\<^verbatim>\<open>eps = endpoints or REDSTONE_PRICE_ENDPOINTS\<close>\<close>

definition effective_endpoints :: "string list option \<Rightarrow> string list" where
  "effective_endpoints endpoints =
     (case endpoints of
        None \<Rightarrow> REDSTONE_PRICE_ENDPOINTS
      | Some es \<Rightarrow> if es \<noteq> [] then es else REDSTONE_PRICE_ENDPOINTS)"

definition fetch_redstone_prices ::
  "env \<Rightarrow> string list \<Rightarrow> string list option \<Rightarrow> int \<Rightarrow> pyfloat \<Rightarrow> event list
     \<Rightarrow> (error + prices) \<times> event list" where
  "fetch_redstone_prices E symbols endpoints retries retry_base_delay tr =
     (let eps = effective_endpoints endpoints
      in fetch_loop E symbols eps retries retry_base_delay 0 None tr)"

text \<open>Whether a trace holds a sleep.\<close>

fun has_slept :: "event list \<Rightarrow> bool" where
  "has_slept [] = False"
| "has_slept (Sleep secs # es) = True"
| "has_slept (e # es) = has_slept es"

text \<open>
  For stating the retry behaviour: an endpoint yields nothing at a point of the run when
  \<^verbatim>\<open>_try_redstone_endpoint\<close> raises or returns an empty mapping there; the error that
  \<^verbatim>\<open>fetch_redstone_prices\<close> then stores in \<^verbatim>\<open>last_err\<close> is the exception, or
  \<^verbatim>\<open>RuntimeError("No data from ...")\<close>. The attempts and sleeps of a trace are its
  \<open>TryEndpoint\<close> and \<open>Sleep\<close> events.
\<close>

definition yields_nothing :: "env \<Rightarrow> string list \<Rightarrow> string \<Rightarrow> event list \<Rightarrow> bool" where
  "yields_nothing E symbols ep tr =
     (case fst (try_redstone_endpoint E ep symbols tr) of
        Inl e \<Rightarrow> True
      | Inr result \<Rightarrow> result = [])"

definition observed_error :: "env \<Rightarrow> string list \<Rightarrow> string \<Rightarrow> event list \<Rightarrow> error" where
  "observed_error E symbols ep tr =
     (case fst (try_redstone_endpoint E ep symbols tr) of
        Inl e \<Rightarrow> e
      | Inr result \<Rightarrow> NoData ep)"

fun is_attempt_event :: "event \<Rightarrow> bool" where
  "is_attempt_event (TryEndpoint ep) = True"
| "is_attempt_event (Sleep d) = True"
| "is_attempt_event e = False"

section \<open>Example upstreams\<close>

text \<open>
  A venue with three tokens and the pairs FEUSD/USDT0 (index 5, a book with both sides)
  and USDHL/USDT0 (index 6, a book without asks); no pair is listed with USDT0 as its base.
\<close>

definition spot_meta_example :: json where
  "spot_meta_example =
     JDict [(''tokens'', JList [JDict [(''name'', JStr ''FEUSD''), (''index'', JNum 1)],
                               JDict [(''name'', JStr ''USDT0''), (''index'', JNum 2)],
                               JDict [(''name'', JStr ''USDHL''), (''index'', JNum 3)]]),
            (''universe'', JList [JDict [(''baseTokenIndex'', JNum 1), (''quoteTokenIndex'', JNum 2), (''index'', JNum 5)],
                                  JDict [(''baseTokenIndex'', JNum 3), (''quoteTokenIndex'', JNum 2), (''index'', JNum 6)]])]"

definition book_example :: "int \<Rightarrow> error + json" where
  "book_example asset_id =
     (if asset_id = 10005 then
        Inr (JDict [(''levels'', JList [JDict [(''px'', JStr ''1.5''), (''sz'', JStr ''10'')],
                                         JDict [(''px'', JStr ''1.0''), (''sz'', JStr ''3'')]]),
                    (''levels_ask'', JList [JDict [(''px'', JStr ''2.5''), (''sz'', JStr ''7'')]])])
      else if asset_id = 10006 then
        Inr (JDict [(''levels'', JList [JDict [(''px'', JStr ''1.5''), (''sz'', JStr ''10'')]]),
                    (''levels_ask'', JList [])])
      else Inl (TransportError ''unknown asset''))"

definition floats_example :: "string \<Rightarrow> pyfloat option" where
  "floats_example = map_of [(''1.5'', 3 / 2), (''2.5'', 5 / 2), (''1.0'', 1), (''10'', 10), (''3'', 3), (''7'', 7)]"

definition venue_example :: env where
  "venue_example =
     \<lparr>float_of_str = floats_example,
      int_of_str = (\<lambda>s. None),
      str_of = (\<lambda>x. []),
      json_loads = (\<lambda>s. None),
      info_spot_meta = (\<lambda>tr. Inr spot_meta_example),
      info_post_l2book = (\<lambda>tr. book_example),
      dex_get_json = (\<lambda>tr a. Inl (TransportError ''offline'')),
      http_get_json = (\<lambda>tr url k v. Inl (TransportError ''offline''))\<rparr>"

text \<open>A symbol-to-address table for the DEX tier.\<close>

definition evm_addr_example :: "(string \<times> string) list" where
  "evm_addr_example =
     [(''FEUSD'', ''0x88102bea0bbad5f301f6e9e4dacdf979''), (''USDC'', ''0xb88339cb7199b77e23db6e890353e22632ba630f'')]"

text \<open>A symbol-to-address table for the DEX aggregator below.\<close>

definition dex_addr_example :: "(string \<times> string) list" where
  "dex_addr_example = [(''TOK'', ''0xAa01''), (''USDC'', ''0xBb02'')]"

text \<open>
  A DEX aggregator that answers by token address: a pool list with an inverted pool
  behind a pool of a third token (\<open>0xAa01\<close>), a list whose highest-liquidity pool has an
  unparseable price (\<open>0xAa05\<close>), an exact pool priced zero (\<open>0xAa06\<close>), a pool of a
  token against itself (\<open>0xAa07\<close>), a single pool with an unparseable price (\<open>0xAa08\<close>)
  and an inverted pool priced zero (\<open>0xAa09\<close>).
\<close>

definition dex_pool :: "string \<Rightarrow> string \<Rightarrow> string \<Rightarrow> pyfloat \<Rightarrow> json" where
  "dex_pool base quote price liq =
     JDict [(''baseToken'', JDict [(''address'', JStr base)]),
            (''quoteToken'', JDict [(''address'', JStr quote)]),
            (''priceNative'', JStr price),
            (''liquidity'', JDict [(''usd'', JNum liq)])]"

definition pools_example :: "string \<Rightarrow> json list" where
  "pools_example token =
     (if token = ''0xAa01'' then
        [dex_pool ''0xCC03'' ''0xaa01'' ''3.0'' 500, dex_pool ''0xBB02'' ''0xAA01'' ''2.0'' 100]
      else if token = ''0xAa05'' then
        [dex_pool ''0xCC03'' ''0xaa05'' ''n/a'' 900, dex_pool ''0xDD04'' ''0xaa05'' ''1.5'' 50]
      else if token = ''0xAa06'' then
        [dex_pool ''0xAA06'' ''0xBB02'' ''0'' 100]
      else if token = ''0xAa07'' then
        [dex_pool ''0xaa07'' ''0xAA07'' ''2.0'' 100]
      else if token = ''0xAa08'' then
        [dex_pool ''0xCC03'' ''0xaa08'' ''n/a'' 900]
      else if token = ''0xAa09'' then
        [dex_pool ''0xBB02'' ''0xAA09'' ''0'' 100]
      else [])"

definition dex_example :: env where
  "dex_example =
     \<lparr>float_of_str = map_of [(''3.0'', 3), (''2.0'', 2), (''1.5'', 3 / 2), (''0'', 0)],
      int_of_str = (\<lambda>s. None),
      str_of = (\<lambda>x. []),
      json_loads = (\<lambda>s. None),
      info_spot_meta = (\<lambda>tr. Inl (TransportError ''offline'')),
      info_post_l2book = (\<lambda>tr a. Inl (TransportError ''offline'')),
      dex_get_json = (\<lambda>tr token. Inr (JDict [(''pairs'', JList (pools_example token))])),
      http_get_json = (\<lambda>tr url k v. Inl (TransportError ''offline''))\<rparr>"

text \<open>
  Two more aggregators, with one answer for every token: a pool in neither orientation
  with the price \<open>1.5\<close> and the highest liquidity, before one with an unparseable price;
  and a single inverted pool whose price is \<^verbatim>\<open>"inf"\<close>, which \<^verbatim>\<open>float\<close> accepts.
\<close>

definition dex_fallback_example :: env where
  "dex_fallback_example =
     dex_example
       \<lparr>dex_get_json := (\<lambda>tr token.
          Inr (JDict [(''pairs'', JList [dex_pool ''0xCC03'' ''0xaa01'' ''1.5'' 900,
                                         dex_pool ''0xDD04'' ''0xaa01'' ''n/a'' 50])]))\<rparr>"


text \<open>
  A price feed that answers every batch request with status 200 and four items: a full
  record for BTC, a record for \<open>eth\<close> whose value is a numeric string, a record without
  a value, and \<^verbatim>\<open>null\<close>. It refuses per-symbol requests.
\<close>

definition feed_example :: env where
  "feed_example =
     \<lparr>float_of_str = map_of [(''3000.5'', 6001 / 2)],
      int_of_str = (\<lambda>s. None),
      str_of = (\<lambda>x. []),
      json_loads = (\<lambda>s. None),
      info_spot_meta = (\<lambda>tr. Inl (TransportError ''offline'')),
      info_post_l2book = (\<lambda>tr a. Inl (TransportError ''offline'')),
      dex_get_json = (\<lambda>tr token. Inl (TransportError ''offline'')),
      http_get_json = (\<lambda>tr url k v.
        if k = ''symbols'' then
          Inr (200, JList [JDict [(''symbol'', JStr ''BTC''), (''value'', JNum 65000),
                                  (''timestamp'', JNum 123), (''provider'', JStr ''x'')],
                           JDict [(''symbol'', JStr ''eth''), (''value'', JStr ''3000.5'')],
                           JDict [(''symbol'', JStr ''SOL'')],
                           JNull])
        else Inl (TransportError ''offline''))\<rparr>"

text \<open>
  A price feed that is down, and whose error message changes once the caller has slept.
\<close>

definition flaky_example :: env where
  "flaky_example =
     venue_example
       \<lparr>http_get_json := (\<lambda>tr url k v.
          if has_slept tr then Inl (TransportError ''later'') else Inl (TransportError ''first''))\<rparr>"

section \<open>Arithmetic of the floats\<close>

lemma pyfloat_numeral [simp]: "(numeral k :: pyfloat) = Finite (numeral k)"
  by (induction k) (simp_all only: numeral.simps one_pyfloat_def plus_pyfloat.simps)

lemma pyfloat_zero [simp]: "(0 :: pyfloat) = Finite 0"
  by (simp add: zero_pyfloat_def)

lemma pyfloat_one [simp]: "(1 :: pyfloat) = Finite 1"
  by (simp add: one_pyfloat_def)

lemma float_int_limit_lower: "2 ^ 1023 \<le> FLOAT_INT_LIMIT"
proof -
  have "(2::real) ^ 970 \<le> 2 ^ 1023" by (rule power_increasing) simp_all
  moreover have "(2::real) ^ 1024 = 2 * 2 ^ 1023" by simp
  ultimately show ?thesis by (simp add: FLOAT_INT_LIMIT_def)
qed

lemma float_int_limit_upper: "FLOAT_INT_LIMIT \<le> 2 ^ 1024"
  by (simp add: FLOAT_INT_LIMIT_def)

lemma float_of_small [simp]:
  assumes "r < 2 ^ 64"
  shows "(FLOAT_INT_LIMIT \<le> r) = False"
proof -
  have "(2::real) ^ 64 \<le> 2 ^ 1023" by (rule power_increasing) simp_all
  with float_int_limit_lower assms have "\<not> FLOAT_INT_LIMIT \<le> r" by linarith
  then show ?thesis by simp
qed

lemma pyfloat_less_irrefl: "\<not> (a :: pyfloat) < a"
  by (cases a) simp_all

lemma pyfloat_less_trans: "(a :: pyfloat) < b \<Longrightarrow> b < c \<Longrightarrow> a < c"
  by (cases a; cases b; cases c) simp_all

lemma pyfloat_less_not_nan: "(a :: pyfloat) < b \<Longrightarrow> a \<noteq> NaN \<and> b \<noteq> NaN"
  by (cases a; cases b) simp_all

lemma pyfloat_not_less_trans:
  "a \<noteq> NaN \<Longrightarrow> b \<noteq> NaN \<Longrightarrow> c \<noteq> NaN \<Longrightarrow> \<not> (a :: pyfloat) < b \<Longrightarrow> \<not> b < c \<Longrightarrow> \<not> a < c"
  by (cases a; cases b; cases c) simp_all

section \<open>Evaluation of the DEX example\<close>

lemma lower_example [simp]:
  "py_lower ''0xAa01'' = ''0xaa01''" "py_lower ''0xBb02'' = ''0xbb02''"
  "py_lower ''0xCC03'' = ''0xcc03''" "py_lower ''0xDD04'' = ''0xdd04''"
  "py_lower ''0xaa01'' = ''0xaa01''" "py_lower ''0xBB02'' = ''0xbb02''" "py_lower ''0xAA01'' = ''0xaa01''"
  "py_lower ''0xAa05'' = ''0xaa05''" "py_lower ''0xaa05'' = ''0xaa05''"
  "py_lower ''0xAa06'' = ''0xaa06''" "py_lower ''0xAA06'' = ''0xaa06''"
  "py_lower ''0xAa07'' = ''0xaa07''" "py_lower ''0xAA07'' = ''0xaa07''" "py_lower ''0xaa07'' = ''0xaa07''"
  "py_lower ''0xAa08'' = ''0xaa08''" "py_lower ''0xaa08'' = ''0xaa08''"
  "py_lower ''0xAa09'' = ''0xaa09''" "py_lower ''0xAA09'' = ''0xaa09''"
  by (simp_all add: py_lower_def lower_char_def)

lemmas dex_defs = get_pair_mid_from_dexscreener_def load_pairs_for_token_def pool_step_def
  token_address_def pool_price_str_def pool_liq_usd_def exact_orientation_def
  inverted_orientation_def py_or_def dex_example_def pools_example_def dex_pool_def

section \<open>Properties of the spot mid price\<close>

text \<open>
  C2. For a pair that is found in the catalog and whose book has been fetched:
  when the bid sequence or the ask sequence is empty, \<open>get_spot_mid\<close> fails with
  \<open>NoLiquidity\<close>; otherwise, with \<open>best_bid\<close> and \<open>best_ask\<close> the price fields of the first
  level of each side, it returns exactly \<open>(best_bid + best_ask) / 2\<close>.
\<close>

theorem get_spot_mid_book:
  assumes found: "find_spot_pair_index E base quote (tr @ [GetSpotMid base quote]) = (Inr pair_index, tr1)"
    and book: "info_post_l2book E tr1 (SPOT_ASSET_OFFSET + pair_index) = Inr ob"
    and bids: "book_side ob ''levels'' ''bids'' = Inr (JList bids)"
    and asks: "book_side ob ''levels_ask'' ''asks'' = Inr (JList asks)"
  shows "(bids = [] \<or> asks = [] \<longrightarrow>
            fst (get_spot_mid E base quote tr) = Inl (NoLiquidity base quote)) \<and>
         (\<forall>best_bid best_ask.
            bids \<noteq> [] \<and> asks \<noteq> [] \<and>
            price_field E (hd bids) = Inr best_bid \<and> price_field E (hd asks) = Inr best_ask \<longrightarrow>
            fst (get_spot_mid E base quote tr) = Inr ((best_bid + best_ask) / 2))"
proof -
  have mid: "fst (get_spot_mid E base quote tr) = mid_of_book E base quote ob"
    using found book by (simp add: get_spot_mid_def Let_def)
  have empty: "bids = [] \<or> asks = [] \<Longrightarrow> mid_of_book E base quote ob = Inl (NoLiquidity base quote)"
    using bids asks by (auto simp: mid_of_book_def)
  have full: "mid_of_book E base quote ob = Inr ((b + a) / 2)"
    if "bids \<noteq> []" "asks \<noteq> []" "price_field E (hd bids) = Inr b" "price_field E (hd asks) = Inr a"
    for a b
    using that bids asks
    by (cases bids; cases asks) (simp_all add: mid_of_book_def level_px_def)
  show ?thesis using mid empty full by auto
qed

theorem get_spot_mid_book_witness:
  "fst (get_spot_mid venue_example ''FEUSD'' ''USDT0'' []) = Inr 2 \<and>
   fst (get_spot_mid venue_example ''USDHL'' ''USDT0'' []) = Inl (NoLiquidity ''USDHL'' ''USDT0'')"
proof -
  let ?bid = "JDict [(''px'', JStr ''1.5''), (''sz'', JStr ''10'')]"
  let ?bid2 = "JDict [(''px'', JStr ''1.0''), (''sz'', JStr ''3'')]"
  let ?ask = "JDict [(''px'', JStr ''2.5''), (''sz'', JStr ''7'')]"
  let ?ob1 = "JDict [(''levels'', JList [?bid, ?bid2]), (''levels_ask'', JList [?ask])]"
  let ?ob2 = "JDict [(''levels'', JList [?bid]), (''levels_ask'', JList [])]"
  let ?tr1 = "[GetSpotMid ''FEUSD'' ''USDT0'', SpotMetaCall]"
  let ?tr2 = "[GetSpotMid ''USDHL'' ''USDT0'', SpotMetaCall]"
  have found1: "find_spot_pair_index venue_example ''FEUSD'' ''USDT0'' ([] @ [GetSpotMid ''FEUSD'' ''USDT0'']) = (Inr 5, ?tr1)"
    by (simp add: find_spot_pair_index_def pair_index_of_def build_name_to_token_index_def
        venue_example_def spot_meta_example_def)
  have book1: "info_post_l2book venue_example ?tr1 (SPOT_ASSET_OFFSET + 5) = Inr ?ob1"
    by (simp add: venue_example_def book_example_def SPOT_ASSET_OFFSET_def)
  have bids1: "book_side ?ob1 ''levels'' ''bids'' = Inr (JList [?bid, ?bid2])"
    by (simp add: book_side_def)
  have asks1: "book_side ?ob1 ''levels_ask'' ''asks'' = Inr (JList [?ask])"
    by (simp add: book_side_def)
  have px: "price_field venue_example ?bid = Inr (3 / 2)" "price_field venue_example ?ask = Inr (5 / 2)"
    by (simp_all add: price_field_def venue_example_def floats_example_def)
  have found2: "find_spot_pair_index venue_example ''USDHL'' ''USDT0'' ([] @ [GetSpotMid ''USDHL'' ''USDT0'']) = (Inr 6, ?tr2)"
    by (simp add: find_spot_pair_index_def pair_index_of_def build_name_to_token_index_def
        venue_example_def spot_meta_example_def)
  have book2: "info_post_l2book venue_example ?tr2 (SPOT_ASSET_OFFSET + 6) = Inr ?ob2"
    by (simp add: venue_example_def book_example_def SPOT_ASSET_OFFSET_def)
  have bids2: "book_side ?ob2 ''levels'' ''bids'' = Inr (JList [?bid])"
    by (simp add: book_side_def)
  have asks2: "book_side ?ob2 ''levels_ask'' ''asks'' = Inr (JList [])"
    by (simp add: book_side_def py_or_def)
  have "fst (get_spot_mid venue_example ''FEUSD'' ''USDT0'' []) = Inr ((3 / 2 + 5 / 2) / 2)"
    by (rule get_spot_mid_book [OF found1 book1 bids1 asks1, THEN conjunct2, rule_format])
      (simp add: px)
  moreover have "fst (get_spot_mid venue_example ''USDHL'' ''USDT0'' []) =
      Inl (NoLiquidity ''USDHL'' ''USDT0'')"
    by (rule get_spot_mid_book [OF found2 book2 bids2 asks2, THEN conjunct1, rule_format]) simp
  ultimately show ?thesis by simp
qed

text \<open>Entries that are records and do not match are all passed over.\<close>

lemma scan_universe_no_entry:
  assumes "\<forall>u\<in>set us. (\<exists>kvs. u = JDict kvs) \<and> \<not> pair_entry u base_idx quote_idx"
  shows "scan_universe E base quote base_idx quote_idx us = Inl (PairNotFound base quote)"
  using assms
proof (induction us)
  case Nil
  then show ?case by simp
next
  case (Cons u us)
  then obtain kvs where u: "u = JDict kvs" by auto
  from Cons.prems have "\<not> pair_entry u base_idx quote_idx" by simp
  with u Cons show ?case by (auto simp: pair_entry_def)
qed

text \<open>
  C6. The lookup is exact-order only: with \<open>base\<close> and \<open>quote\<close> both in the token
  catalog, an entry for (index of quote, index of base) and none for (index of base,
  index of quote), \<open>get_spot_mid base quote\<close> fails with \<open>PairNotFound\<close>, and no order book
  is requested: the reversed entry is not used.
\<close>

theorem reversed_pair_not_found:
  assumes meta: "info_spot_meta E (tr @ [GetSpotMid base quote]) = Inr sm"
    and catalog: "build_name_to_token_index sm = Inr name_to_idx"
    and base: "name_to_idx base = Some base_idx"
    and quote: "name_to_idx quote = Some quote_idx"
    and universe: "py_get sm ''universe'' (JList []) = Inr (JList us)"
    and records: "\<forall>u\<in>set us. \<exists>kvs. u = JDict kvs"
    and reversed: "\<exists>u\<in>set us. pair_entry u quote_idx base_idx"
    and absent: "\<forall>u\<in>set us. \<not> pair_entry u base_idx quote_idx"
  shows "get_spot_mid E base quote tr =
           (Inl (PairNotFound base quote), tr @ [GetSpotMid base quote, SpotMetaCall])"
proof -
  have "scan_universe E base quote base_idx quote_idx us = Inl (PairNotFound base quote)"
    using records absent by (intro scan_universe_no_entry) blast
  then have "pair_index_of E sm base quote = Inl (PairNotFound base quote)"
    using catalog base quote universe by (simp add: pair_index_of_def)
  then show ?thesis
    using meta by (simp add: get_spot_mid_def find_spot_pair_index_def)
qed

theorem reversed_pair_not_found_witness:
  "pair_entry (JDict [(''baseTokenIndex'', JNum 1), (''quoteTokenIndex'', JNum 2), (''index'', JNum 5)]) (JNum 1) (JNum 2) \<and>
   get_spot_mid venue_example ''USDT0'' ''FEUSD'' [] =
     (Inl (PairNotFound ''USDT0'' ''FEUSD''), [GetSpotMid ''USDT0'' ''FEUSD'', SpotMetaCall])"
proof -
  let ?us = "[JDict [(''baseTokenIndex'', JNum 1), (''quoteTokenIndex'', JNum 2), (''index'', JNum 5)],
              JDict [(''baseTokenIndex'', JNum 3), (''quoteTokenIndex'', JNum 2), (''index'', JNum 6)]]"
  let ?m = "[''FEUSD'' \<mapsto> JNum 1, ''USDT0'' \<mapsto> JNum 2, ''USDHL'' \<mapsto> JNum 3]"
  have meta: "info_spot_meta venue_example ([] @ [GetSpotMid ''USDT0'' ''FEUSD'']) = Inr spot_meta_example"
    by (simp add: venue_example_def)
  have catalog: "build_name_to_token_index spot_meta_example = Inr ?m"
    by (simp add: build_name_to_token_index_def spot_meta_example_def)
  have base: "?m ''USDT0'' = Some (JNum 2)" by simp
  have quote: "?m ''FEUSD'' = Some (JNum 1)" by simp
  have universe: "py_get spot_meta_example ''universe'' (JList []) = Inr (JList ?us)"
    by (simp add: spot_meta_example_def)
  have records: "\<forall>u\<in>set ?us. \<exists>kvs. u = JDict kvs" by simp
  have reversed: "\<exists>u\<in>set ?us. pair_entry u (JNum 1) (JNum 2)"
    by (simp add: pair_entry_def)
  have absent: "\<forall>u\<in>set ?us. \<not> pair_entry u (JNum 2) (JNum 1)"
    by (simp add: pair_entry_def)
  show ?thesis
    using reversed_pair_not_found [OF meta catalog base quote universe records reversed absent]
    by (simp add: pair_entry_def)
qed

section \<open>Properties of the stable factor\<close>

subsection \<open>Traces of the resolvers\<close>

lemma spot_calls_append: "spot_calls (xs @ ys) = spot_calls xs @ spot_calls ys"
  by (induction xs rule: spot_calls.induct) simp_all

lemma find_spot_pair_index_trace:
  "snd (find_spot_pair_index E base quote tr) = tr @ [SpotMetaCall]"
  by (cases "info_spot_meta E tr") (simp_all add: find_spot_pair_index_def)

lemma get_spot_mid_trace:
  "snd (get_spot_mid E base quote tr) = tr @ [GetSpotMid base quote, SpotMetaCall] \<or>
   (\<exists>a. snd (get_spot_mid E base quote tr) = tr @ [GetSpotMid base quote, SpotMetaCall, L2BookCall a])"
proof -
  obtain r tr1 where f: "find_spot_pair_index E base quote (tr @ [GetSpotMid base quote]) = (r, tr1)"
    by (cases "find_spot_pair_index E base quote (tr @ [GetSpotMid base quote])")
  have tr1: "tr1 = tr @ [GetSpotMid base quote, SpotMetaCall]"
    using find_spot_pair_index_trace [of E base quote "tr @ [GetSpotMid base quote]"] f by simp
  show ?thesis
  proof (cases r)
    case (Inl e)
    with f tr1 show ?thesis by (simp add: get_spot_mid_def)
  next
    case (Inr i)
    show ?thesis
    proof (cases "info_post_l2book E tr1 (SPOT_ASSET_OFFSET + i)")
      case (Inl e)
      with f tr1 Inr show ?thesis by (simp add: get_spot_mid_def Let_def)
    next
      case (Inr ob)
      with f tr1 \<open>r = Inr i\<close> show ?thesis by (simp add: get_spot_mid_def Let_def)
    qed
  qed
qed

lemma get_spot_mid_success_trace:
  assumes "get_spot_mid E base quote tr = (Inr v, tr1)"
  shows "\<exists>a. tr1 = tr @ [GetSpotMid base quote, SpotMetaCall, L2BookCall a]"
proof -
  obtain r t where f: "find_spot_pair_index E base quote (tr @ [GetSpotMid base quote]) = (r, t)"
    by (cases "find_spot_pair_index E base quote (tr @ [GetSpotMid base quote])")
  have t: "t = tr @ [GetSpotMid base quote, SpotMetaCall]"
    using find_spot_pair_index_trace [of E base quote "tr @ [GetSpotMid base quote]"] f by simp
  show ?thesis
  proof (cases r)
    case (Inl e)
    with f assms show ?thesis by (simp add: get_spot_mid_def)
  next
    case (Inr i)
    show ?thesis
    proof (cases "info_post_l2book E t (SPOT_ASSET_OFFSET + i)")
      case (Inl e)
      with f assms Inr show ?thesis by (simp add: get_spot_mid_def Let_def)
    next
      case (Inr ob)
      with f t assms \<open>r = Inr i\<close>
      have "tr1 = tr @ [GetSpotMid base quote, SpotMetaCall, L2BookCall (SPOT_ASSET_OFFSET + i)]"
        by (auto simp: get_spot_mid_def Let_def)
      then show ?thesis by blast
    qed
  qed
qed

lemma get_spot_mid_calls:
  "spot_calls (snd (get_spot_mid E base quote tr)) = spot_calls tr @ [(base, quote)]"
proof -
  from get_spot_mid_trace [of E base quote tr] show ?thesis
  proof
    assume "snd (get_spot_mid E base quote tr) = tr @ [GetSpotMid base quote, SpotMetaCall]"
    then show ?thesis by (simp add: spot_calls_append)
  next
    assume "\<exists>a. snd (get_spot_mid E base quote tr) = tr @ [GetSpotMid base quote, SpotMetaCall, L2BookCall a]"
    then obtain a where "snd (get_spot_mid E base quote tr) = tr @ [GetSpotMid base quote, SpotMetaCall, L2BookCall a]" ..
    then show ?thesis by (simp add: spot_calls_append)
  qed
qed

lemma get_pair_mid_trace:
  "snd (get_pair_mid_from_dexscreener E a b tr) = tr @ [GetPairMid a b, DexGet a]"
proof -
  have l: "snd (load_pairs_for_token E a t) = t @ [DexGet a]" for t
    by (simp add: load_pairs_for_token_def split: sum.splits)
  obtain r t where f: "load_pairs_for_token E a (tr @ [GetPairMid a b]) = (r, t)"
    by (cases "load_pairs_for_token E a (tr @ [GetPairMid a b])")
  with l [of "tr @ [GetPairMid a b]"] have t: "t = tr @ [GetPairMid a b, DexGet a]" by simp
  show ?thesis
    using f t by (simp add: get_pair_mid_from_dexscreener_def split: sum.splits)
qed

lemma spot_tier_calls:
  "\<exists>k. k \<le> length qs \<and> spot_calls (snd (spot_tier E symbol qs tr)) =
       spot_calls tr @ map (Pair symbol) (take k qs) \<and>
     (fst (spot_tier E symbol qs tr) = None \<longrightarrow> k = length qs)"
proof (induction qs arbitrary: tr)
  case Nil
  show ?case by simp
next
  case (Cons q qs)
  obtain r tr1 where g: "get_spot_mid E symbol q tr = (r, tr1)" by (cases "get_spot_mid E symbol q tr")
  have c: "spot_calls tr1 = spot_calls tr @ [(symbol, q)]"
    using get_spot_mid_calls [of E symbol q tr] g by simp
  show ?case
  proof (cases r)
    case (Inr v)
    have s: "spot_tier E symbol (q # qs) tr = (Some v, tr1)" using g Inr by simp
    show ?thesis
      unfolding s by (rule exI [of _ 1]) (simp add: c)
  next
    case (Inl e)
    have s: "spot_tier E symbol (q # qs) tr = spot_tier E symbol qs tr1" using g Inl by simp
    from Cons.IH [of tr1] obtain k where k1: "k \<le> length qs"
      and k2: "spot_calls (snd (spot_tier E symbol qs tr1)) = spot_calls tr1 @ map (Pair symbol) (take k qs)"
      and k3: "fst (spot_tier E symbol qs tr1) = None \<longrightarrow> k = length qs"
      by (elim exE conjE)
    show ?thesis
      unfolding s by (rule exI [of _ "Suc k"]) (simp add: c k1 k2 k3)
  qed
qed

lemma spot_tier_all_fail:
  assumes "\<forall>q\<in>set qs. \<forall>t. \<exists>e. fst (get_spot_mid E symbol q t) = Inl e"
  shows "fst (spot_tier E symbol qs tr) = None"
  using assms
proof (induction qs arbitrary: tr)
  case Nil
  show ?case by simp
next
  case (Cons q qs)
  from Cons.prems have "\<exists>e. fst (get_spot_mid E symbol q tr) = Inl e" by simp
  then obtain e tr1 where g: "get_spot_mid E symbol q tr = (Inl e, tr1)"
    by (cases "get_spot_mid E symbol q tr") auto
  from Cons.prems have "\<forall>q\<in>set qs. \<forall>t. \<exists>e. fst (get_spot_mid E symbol q t) = Inl e" by simp
  then have "fst (spot_tier E symbol qs tr1) = None" by (rule Cons.IH)
  with g show ?case by simp
qed

lemma resolve_cases:
  obtains (spot) v tr1 where "spot_tier E symbol (iter_quotes pq) tr = (Some v, tr1)"
      "resolve_stable_usd_factor E symbol pq addrs ref tr = (Inr v, tr1)"
  | (peg) tr1 where "spot_tier E symbol (iter_quotes pq) tr = (None, tr1)"
      "\<not> dex_available addrs symbol ref"
      "resolve_stable_usd_factor E symbol pq addrs ref tr = (Inr 1, tr1)"
  | (dex) tr1 m a b v tr2 where "spot_tier E symbol (iter_quotes pq) tr = (None, tr1)"
      "dex_available addrs symbol ref" "addrs = Some m" "map_of m symbol = Some a"
      "map_of m ref = Some b" "get_pair_mid_from_dexscreener E a b tr1 = (Inr v, tr2)"
      "resolve_stable_usd_factor E symbol pq addrs ref tr = (Inr v, tr2)"
  | (dex_fails) tr1 m a b e tr2 where "spot_tier E symbol (iter_quotes pq) tr = (None, tr1)"
      "dex_available addrs symbol ref" "addrs = Some m" "map_of m symbol = Some a"
      "map_of m ref = Some b" "get_pair_mid_from_dexscreener E a b tr1 = (Inl e, tr2)"
      "resolve_stable_usd_factor E symbol pq addrs ref tr = (Inr 1, tr2)"
proof -
  obtain r tr1 where s: "spot_tier E symbol (iter_quotes pq) tr = (r, tr1)"
    by (cases "spot_tier E symbol (iter_quotes pq) tr")
  show thesis
  proof (cases r)
    case (Some v)
    with s have "resolve_stable_usd_factor E symbol pq addrs ref tr = (Inr v, tr1)"
      by (simp add: resolve_stable_usd_factor_def)
    with s Some show thesis by (intro spot) simp_all
  next
    case None
    show thesis
    proof (cases "dex_available addrs symbol ref")
      case False
      with s None have "resolve_stable_usd_factor E symbol pq addrs ref tr = (Inr 1, tr1)"
        by (simp add: resolve_stable_usd_factor_def)
      with s None False show thesis by (intro peg) simp_all
    next
      case True
      then obtain m a b where m: "addrs = Some m" "map_of m symbol = Some a" "map_of m ref = Some b"
        by (auto simp: dex_available_def split: option.splits)
      obtain x tr2 where g: "get_pair_mid_from_dexscreener E a b tr1 = (x, tr2)"
        by (cases "get_pair_mid_from_dexscreener E a b tr1")
      show thesis
      proof (cases x)
        case (Inr v)
        with s None True m g have "resolve_stable_usd_factor E symbol pq addrs ref tr = (Inr v, tr2)"
          by (simp add: resolve_stable_usd_factor_def)
        with s None True m g Inr show thesis by (intro dex) simp_all
      next
        case (Inl e)
        with s None True m g have "resolve_stable_usd_factor E symbol pq addrs ref tr = (Inr 1, tr2)"
          by (simp add: resolve_stable_usd_factor_def)
        with s None True m g Inl show thesis by (intro dex_fails) simp_all
      qed
    qed
  qed
qed

lemma default_iter: "iter_quotes default_preferred_quotes = [''F'', ''E'', ''U'', ''S'', ''D'']"
  by (simp add: default_preferred_quotes_def)

lemma spot_tier_calls_some:
  "\<exists>k. spot_calls (snd (spot_tier E symbol qs tr)) = spot_calls tr @ map (Pair symbol) (take k qs)"
  using spot_tier_calls [of qs E symbol tr] by (elim exE conjE) (rule exI)

lemma spot_tier_calls_all:
  assumes "fst (spot_tier E symbol qs tr) = None"
  shows "spot_calls (snd (spot_tier E symbol qs tr)) = spot_calls tr @ map (Pair symbol) qs"
  using spot_tier_calls [of qs E symbol tr] assms by (elim exE conjE) simp

lemma spot_tier_calls_subset:
  "set (spot_calls (snd (spot_tier E symbol qs []))) \<subseteq> Pair symbol ` set qs"
proof -
  from spot_tier_calls_some [of E symbol qs "[]"] obtain k where
    "spot_calls (snd (spot_tier E symbol qs [])) = spot_calls [] @ map (Pair symbol) (take k qs)" ..
  then have "set (spot_calls (snd (spot_tier E symbol qs []))) = Pair symbol ` set (take k qs)"
    by simp
  also have "\<dots> \<subseteq> Pair symbol ` set qs"
    by (rule image_mono) (rule set_take_subset)
  finally show ?thesis .
qed

lemma resolve_spot_calls:
  "spot_calls (snd (resolve_stable_usd_factor E symbol pq addrs ref tr)) =
   spot_calls (snd (spot_tier E symbol (iter_quotes pq) tr))"
proof (cases rule: resolve_cases [of E symbol pq tr addrs ref])
  case (spot v tr1)
  then show ?thesis by simp
next
  case (peg tr1)
  then show ?thesis by simp
next
  case (dex tr1 m a b v tr2)
  have "tr2 = tr1 @ [GetPairMid a b, DexGet a]"
    using get_pair_mid_trace [of E a b tr1] dex(6) by simp
  with dex show ?thesis by (simp add: spot_calls_append)
next
  case (dex_fails tr1 m a b e tr2)
  have "tr2 = tr1 @ [GetPairMid a b, DexGet a]"
    using get_pair_mid_trace [of E a b tr1] dex_fails(6) by simp
  with dex_fails show ?thesis by (simp add: spot_calls_append)
qed

lemma venue_unknown_quote:
  assumes "q \<in> set [''F'', ''E'', ''U'', ''S'', ''D'']"
  shows "fst (get_spot_mid venue_example ''FEUSD'' q t) = Inl (UnknownToken ''FEUSD'' q)"
  using assms
  by (auto simp: get_spot_mid_def find_spot_pair_index_def pair_index_of_def
      build_name_to_token_index_def venue_example_def spot_meta_example_def)

lemma spot_tier_after_failures:
  assumes "spot_failures E symbol pre tr = Some tr0"
  shows "spot_tier E symbol (pre @ qs) tr = spot_tier E symbol qs tr0"
  using assms
proof (induction pre arbitrary: tr)
  case Nil
  then show ?case by simp
next
  case (Cons q pre)
  obtain r tr1 where g: "get_spot_mid E symbol q tr = (r, tr1)" by (cases "get_spot_mid E symbol q tr")
  show ?case
  proof (cases r)
    case (Inr v)
    with g Cons.prems show ?thesis by simp
  next
    case (Inl e)
    with g Cons.prems have "spot_failures E symbol pre tr1 = Some tr0" by simp
    from Cons.IH [OF this] g Inl show ?thesis by simp
  qed
qed

lemma spot_tier_all_failures:
  assumes "spot_failures E symbol qs tr = Some tr0"
  shows "spot_tier E symbol qs tr = (None, tr0)"
  using spot_tier_after_failures [OF assms, of "[]"] by simp

subsection \<open>The three tiers\<close>

text \<open>
  C1. \<open>resolve_stable_usd_factor\<close> never raises: for every input its result is a value.
  Every failure advances to the next tier. When the quotes before \<open>q\<close> all fail in this
  run and \<open>get_spot_mid\<close> then succeeds with \<open>v\<close> for \<open>q\<close>, the result is \<open>v\<close>. When every
  quote fails in this run and the two addresses are in the table, the DEX tier is asked
  next: its price is the result when it succeeds, and the result is exactly \<open>1\<close> when it
  fails. When every quote fails and the DEX tier is unavailable, the result is exactly
  \<open>1\<close>. The trace of the run is that of the calls made, and of no other.
\<close>

theorem resolve_never_raises:
  "(\<exists>v. fst (resolve_stable_usd_factor E symbol pq addrs ref tr) = Inr v) \<and>
   (\<forall>pre q rest tr0 v tr1.
      iter_quotes pq = pre @ q # rest \<and> spot_failures E symbol pre tr = Some tr0 \<and>
      get_spot_mid E symbol q tr0 = (Inr v, tr1) \<longrightarrow>
      resolve_stable_usd_factor E symbol pq addrs ref tr = (Inr v, tr1)) \<and>
   (\<forall>tr0 m a b v tr1.
      spot_failures E symbol (iter_quotes pq) tr = Some tr0 \<and>
      addrs = Some m \<and> map_of m symbol = Some a \<and> map_of m ref = Some b \<and>
      get_pair_mid_from_dexscreener E a b tr0 = (Inr v, tr1) \<longrightarrow>
      resolve_stable_usd_factor E symbol pq addrs ref tr = (Inr v, tr1)) \<and>
   (\<forall>tr0 m a b e tr1.
      spot_failures E symbol (iter_quotes pq) tr = Some tr0 \<and>
      addrs = Some m \<and> map_of m symbol = Some a \<and> map_of m ref = Some b \<and>
      get_pair_mid_from_dexscreener E a b tr0 = (Inl e, tr1) \<longrightarrow>
      resolve_stable_usd_factor E symbol pq addrs ref tr = (Inr 1, tr1)) \<and>
   (\<forall>tr0.
      spot_failures E symbol (iter_quotes pq) tr = Some tr0 \<and>
      \<not> dex_available addrs symbol ref \<longrightarrow>
      resolve_stable_usd_factor E symbol pq addrs ref tr = (Inr 1, tr0))"
proof (intro conjI allI impI)
  show "\<exists>v. fst (resolve_stable_usd_factor E symbol pq addrs ref tr) = Inr v"
    by (cases rule: resolve_cases [of E symbol pq tr addrs ref]) simp_all
next
  fix pre q rest tr0 v tr1
  assume h: "iter_quotes pq = pre @ q # rest \<and> spot_failures E symbol pre tr = Some tr0 \<and>
      get_spot_mid E symbol q tr0 = (Inr v, tr1)"
  then have "spot_tier E symbol (iter_quotes pq) tr = spot_tier E symbol (q # rest) tr0"
    by (simp add: spot_tier_after_failures)
  with h have "spot_tier E symbol (iter_quotes pq) tr = (Some v, tr1)" by simp
  then show "resolve_stable_usd_factor E symbol pq addrs ref tr = (Inr v, tr1)"
    by (simp add: resolve_stable_usd_factor_def)
next
  fix tr0 m a b v tr1
  assume h: "spot_failures E symbol (iter_quotes pq) tr = Some tr0 \<and>
      addrs = Some m \<and> map_of m symbol = Some a \<and> map_of m ref = Some b \<and>
      get_pair_mid_from_dexscreener E a b tr0 = (Inr v, tr1)"
  then have s: "spot_tier E symbol (iter_quotes pq) tr = (None, tr0)"
    by (simp add: spot_tier_all_failures)
  from h have "m \<noteq> []" by auto
  with h have "dex_available addrs symbol ref" by (simp add: dex_available_def)
  with s h show "resolve_stable_usd_factor E symbol pq addrs ref tr = (Inr v, tr1)"
    by (simp add: resolve_stable_usd_factor_def)
next
  fix tr0 m a b e tr1
  assume h: "spot_failures E symbol (iter_quotes pq) tr = Some tr0 \<and>
      addrs = Some m \<and> map_of m symbol = Some a \<and> map_of m ref = Some b \<and>
      get_pair_mid_from_dexscreener E a b tr0 = (Inl e, tr1)"
  then have s: "spot_tier E symbol (iter_quotes pq) tr = (None, tr0)"
    by (simp add: spot_tier_all_failures)
  from h have "m \<noteq> []" by auto
  with h have "dex_available addrs symbol ref" by (simp add: dex_available_def)
  with s h show "resolve_stable_usd_factor E symbol pq addrs ref tr = (Inr 1, tr1)"
    by (simp add: resolve_stable_usd_factor_def)
next
  fix tr0
  assume h: "spot_failures E symbol (iter_quotes pq) tr = Some tr0 \<and>
      \<not> dex_available addrs symbol ref"
  then have s: "spot_tier E symbol (iter_quotes pq) tr = (None, tr0)"
    by (simp add: spot_tier_all_failures)
  with h show "resolve_stable_usd_factor E symbol pq addrs ref tr = (Inr 1, tr0)"
    by (simp add: resolve_stable_usd_factor_def)
qed

theorem resolve_never_raises_witness:
  "resolve_stable_usd_factor venue_example ''FEUSD'' (QuoteList [''USDC'', ''USDT0''])
     (Some evm_addr_example) ''USDC'' [] =
     (Inr 2, [GetSpotMid ''FEUSD'' ''USDC'', SpotMetaCall,
              GetSpotMid ''FEUSD'' ''USDT0'', SpotMetaCall, L2BookCall 10005]) \<and>
   resolve_stable_usd_factor dex_example ''TOK'' (QuoteList [''USDT0''])
     (Some dex_addr_example) ''USDC'' [] =
     (Inr (1 / 2), [GetSpotMid ''TOK'' ''USDT0'', SpotMetaCall,
                    GetPairMid ''0xAa01'' ''0xBb02'', DexGet ''0xAa01'']) \<and>
   resolve_stable_usd_factor venue_example ''FEUSD'' (QuoteList [''USDC''])
     (Some evm_addr_example) ''USDC'' [] =
     (Inr 1, [GetSpotMid ''FEUSD'' ''USDC'', SpotMetaCall,
              GetPairMid ''0x88102bea0bbad5f301f6e9e4dacdf979'' ''0xb88339cb7199b77e23db6e890353e22632ba630f'',
              DexGet ''0x88102bea0bbad5f301f6e9e4dacdf979'']) \<and>
   resolve_stable_usd_factor venue_example ''FEUSD'' (QuoteList [''USDC'']) None ''USDC'' [] =
     (Inr 1, [GetSpotMid ''FEUSD'' ''USDC'', SpotMetaCall])"
proof (intro conjI)
  let ?tr0 = "[GetSpotMid ''FEUSD'' ''USDC'', SpotMetaCall]"
  have fail: "spot_failures venue_example ''FEUSD'' [''USDC''] [] = Some ?tr0"
    by (simp add: get_spot_mid_def find_spot_pair_index_def pair_index_of_def
        build_name_to_token_index_def venue_example_def spot_meta_example_def)
  have mid: "get_spot_mid venue_example ''FEUSD'' ''USDT0'' ?tr0 =
      (Inr 2, ?tr0 @ [GetSpotMid ''FEUSD'' ''USDT0'', SpotMetaCall, L2BookCall 10005])"
    by (simp add: get_spot_mid_def find_spot_pair_index_def pair_index_of_def
        build_name_to_token_index_def mid_of_book_def book_side_def level_px_def price_field_def
        SPOT_ASSET_OFFSET_def venue_example_def spot_meta_example_def book_example_def
        floats_example_def)
  have quotes: "iter_quotes (QuoteList [''USDC'', ''USDT0'']) = [''USDC''] @ ''USDT0'' # []" by simp
  from resolve_never_raises [THEN conjunct2, THEN conjunct1, rule_format,
      OF conjI, OF quotes conjI, OF fail mid]
  show "resolve_stable_usd_factor venue_example ''FEUSD'' (QuoteList [''USDC'', ''USDT0''])
     (Some evm_addr_example) ''USDC'' [] =
     (Inr 2, [GetSpotMid ''FEUSD'' ''USDC'', SpotMetaCall,
              GetSpotMid ''FEUSD'' ''USDT0'', SpotMetaCall, L2BookCall 10005])" by simp
next
  let ?tr0 = "[GetSpotMid ''TOK'' ''USDT0'', SpotMetaCall]"
  have fail: "spot_failures dex_example ''TOK'' (iter_quotes (QuoteList [''USDT0''])) [] = Some ?tr0"
    by (simp add: get_spot_mid_def find_spot_pair_index_def dex_example_def)
  have addrs: "Some dex_addr_example = Some dex_addr_example" by simp
  have a: "map_of dex_addr_example ''TOK'' = Some ''0xAa01''" by (simp add: dex_addr_example_def)
  have b: "map_of dex_addr_example ''USDC'' = Some ''0xBb02''" by (simp add: dex_addr_example_def)
  have dex: "get_pair_mid_from_dexscreener dex_example ''0xAa01'' ''0xBb02'' ?tr0 =
      (Inr (1 / 2), ?tr0 @ [GetPairMid ''0xAa01'' ''0xBb02'', DexGet ''0xAa01''])"
    by (simp add: dex_defs)
  from resolve_never_raises [THEN conjunct2, THEN conjunct2, THEN conjunct1, rule_format,
      OF conjI, OF fail conjI, OF addrs conjI, OF a conjI, OF b dex]
  show "resolve_stable_usd_factor dex_example ''TOK'' (QuoteList [''USDT0''])
     (Some dex_addr_example) ''USDC'' [] =
     (Inr (1 / 2), [GetSpotMid ''TOK'' ''USDT0'', SpotMetaCall,
                    GetPairMid ''0xAa01'' ''0xBb02'', DexGet ''0xAa01''])" by simp
next
  let ?tr0 = "[GetSpotMid ''FEUSD'' ''USDC'', SpotMetaCall]"
  let ?a = "''0x88102bea0bbad5f301f6e9e4dacdf979''"
  let ?b = "''0xb88339cb7199b77e23db6e890353e22632ba630f''"
  have fail: "spot_failures venue_example ''FEUSD'' (iter_quotes (QuoteList [''USDC''])) [] = Some ?tr0"
    by (simp add: get_spot_mid_def find_spot_pair_index_def pair_index_of_def
        build_name_to_token_index_def venue_example_def spot_meta_example_def)
  have addrs: "Some evm_addr_example = Some evm_addr_example" by simp
  have a: "map_of evm_addr_example ''FEUSD'' = Some ?a" by (simp add: evm_addr_example_def)
  have b: "map_of evm_addr_example ''USDC'' = Some ?b" by (simp add: evm_addr_example_def)
  have dex: "get_pair_mid_from_dexscreener venue_example ?a ?b ?tr0 =
      (Inl (TransportError ''offline''), ?tr0 @ [GetPairMid ?a ?b, DexGet ?a])"
    by (simp add: get_pair_mid_from_dexscreener_def load_pairs_for_token_def venue_example_def)
  from resolve_never_raises [THEN conjunct2, THEN conjunct2, THEN conjunct2, THEN conjunct1,
      rule_format, OF conjI, OF fail conjI, OF addrs conjI, OF a conjI, OF b dex]
  show "resolve_stable_usd_factor venue_example ''FEUSD'' (QuoteList [''USDC''])
     (Some evm_addr_example) ''USDC'' [] =
     (Inr 1, [GetSpotMid ''FEUSD'' ''USDC'', SpotMetaCall, GetPairMid ?a ?b, DexGet ?a])" by simp
next
  let ?tr0 = "[GetSpotMid ''FEUSD'' ''USDC'', SpotMetaCall]"
  have fail: "spot_failures venue_example ''FEUSD'' (iter_quotes (QuoteList [''USDC''])) [] = Some ?tr0"
    by (simp add: get_spot_mid_def find_spot_pair_index_def pair_index_of_def
        build_name_to_token_index_def venue_example_def spot_meta_example_def)
  have un: "\<not> dex_available None ''FEUSD'' ''USDC''" by (simp add: dex_available_def)
  from resolve_never_raises [THEN conjunct2, THEN conjunct2, THEN conjunct2, THEN conjunct2,
      rule_format, OF conjI, OF fail un]
  show "resolve_stable_usd_factor venue_example ''FEUSD'' (QuoteList [''USDC'']) None ''USDC'' [] =
     (Inr 1, [GetSpotMid ''FEUSD'' ''USDC'', SpotMetaCall])" .
qed

text \<open>
  C8. Return on first success: when \<open>get_spot_mid\<close> succeeds with \<open>v\<close> for the first
  preferred quote, \<open>resolve_stable_usd_factor\<close> returns \<open>v\<close>, and the whole run consists of
  that one resolution (its metadata request and its book request): no later quote and
  no DEX request.
\<close>

theorem first_quote_short_circuit:
  assumes first: "iter_quotes pq = q # qs"
    and mid: "get_spot_mid E symbol q tr = (Inr v, tr1)"
  shows "resolve_stable_usd_factor E symbol pq addrs ref tr = (Inr v, tr1) \<and>
         (\<exists>asset. tr1 = tr @ [GetSpotMid symbol q, SpotMetaCall, L2BookCall asset])"
proof
  have "spot_tier E symbol (iter_quotes pq) tr = (Some v, tr1)"
    using first mid by simp
  then show "resolve_stable_usd_factor E symbol pq addrs ref tr = (Inr v, tr1)"
    by (simp add: resolve_stable_usd_factor_def)
  show "\<exists>asset. tr1 = tr @ [GetSpotMid symbol q, SpotMetaCall, L2BookCall asset]"
    using mid by (rule get_spot_mid_success_trace)
qed

theorem first_quote_short_circuit_witness:
  "resolve_stable_usd_factor venue_example ''FEUSD'' (QuoteList [''USDT0'', ''USDHL''])
     (Some evm_addr_example) ''USDC'' [] =
   (Inr 2, [GetSpotMid ''FEUSD'' ''USDT0'', SpotMetaCall, L2BookCall 10005])"
proof -
  have first: "iter_quotes (QuoteList [''USDT0'', ''USDHL'']) = ''USDT0'' # [''USDHL'']" by simp
  have mid: "get_spot_mid venue_example ''FEUSD'' ''USDT0'' [] =
      (Inr 2, [GetSpotMid ''FEUSD'' ''USDT0'', SpotMetaCall, L2BookCall 10005])"
    by (simp add: get_spot_mid_def find_spot_pair_index_def pair_index_of_def
        build_name_to_token_index_def mid_of_book_def book_side_def level_px_def price_field_def
        SPOT_ASSET_OFFSET_def venue_example_def spot_meta_example_def book_example_def
        floats_example_def)
  from first_quote_short_circuit [OF first mid] show ?thesis by (rule conjunct1)
qed

text \<open>
  C9. The default \<^verbatim>\<open>preferred_quotes\<close> is the bare string \<^verbatim>\<open>"FEUSD"\<close>: the spot tier
  iterates its characters, so the quotes it attempts are an initial part of
  \<open>F, E, U, S, D\<close> in this order (all five when each fails), and the pair
  \<open>symbol/FEUSD\<close> is never attempted.
\<close>

theorem default_quotes_are_characters:
  "iter_quotes default_preferred_quotes = [''F'', ''E'', ''U'', ''S'', ''D''] \<and>
   (\<exists>k. spot_calls (snd (resolve_stable_usd_factor E symbol default_preferred_quotes addrs ref tr)) =
      spot_calls tr @ map (Pair symbol) (take k [''F'', ''E'', ''U'', ''S'', ''D''])) \<and>
   ((\<forall>q\<in>set [''F'', ''E'', ''U'', ''S'', ''D'']. \<forall>t. \<exists>e. fst (get_spot_mid E symbol q t) = Inl e) \<longrightarrow>
    spot_calls (snd (resolve_stable_usd_factor E symbol default_preferred_quotes addrs ref tr)) =
      spot_calls tr @ map (Pair symbol) [''F'', ''E'', ''U'', ''S'', ''D'']) \<and>
   (symbol, ''FEUSD'') \<notin>
     set (spot_calls (snd (resolve_stable_usd_factor E symbol default_preferred_quotes addrs ref [])))"
proof (intro conjI impI)
  show "iter_quotes default_preferred_quotes = [''F'', ''E'', ''U'', ''S'', ''D'']"
    by (rule default_iter)
next
  show "\<exists>k. spot_calls (snd (resolve_stable_usd_factor E symbol default_preferred_quotes addrs ref tr)) =
      spot_calls tr @ map (Pair symbol) (take k [''F'', ''E'', ''U'', ''S'', ''D''])"
    unfolding resolve_spot_calls default_iter by (rule spot_tier_calls_some)
next
  assume "\<forall>q\<in>set [''F'', ''E'', ''U'', ''S'', ''D'']. \<forall>t. \<exists>e. fst (get_spot_mid E symbol q t) = Inl e"
  then have "fst (spot_tier E symbol [''F'', ''E'', ''U'', ''S'', ''D''] tr) = None"
    by (rule spot_tier_all_fail)
  then show "spot_calls (snd (resolve_stable_usd_factor E symbol default_preferred_quotes addrs ref tr)) =
      spot_calls tr @ map (Pair symbol) [''F'', ''E'', ''U'', ''S'', ''D'']"
    unfolding resolve_spot_calls default_iter by (rule spot_tier_calls_all)
next
  have "''FEUSD'' \<notin> set [''F'', ''E'', ''U'', ''S'', ''D'']" by simp
  then have "(symbol, ''FEUSD'') \<notin> Pair symbol ` set [''F'', ''E'', ''U'', ''S'', ''D'']"
    by blast
  with spot_tier_calls_subset [of E symbol "[''F'', ''E'', ''U'', ''S'', ''D'']"]
  show "(symbol, ''FEUSD'') \<notin>
     set (spot_calls (snd (resolve_stable_usd_factor E symbol default_preferred_quotes addrs ref [])))"
    unfolding resolve_spot_calls default_iter by blast
qed

theorem default_quotes_are_characters_witness:
  "spot_calls (snd (resolve_stable_usd_factor venue_example ''FEUSD'' default_preferred_quotes
       (Some evm_addr_example) ''USDC'' [])) =
     [(''FEUSD'', ''F''), (''FEUSD'', ''E''), (''FEUSD'', ''U''), (''FEUSD'', ''S''), (''FEUSD'', ''D'')]"
proof -
  have spot: "\<forall>q\<in>set [''F'', ''E'', ''U'', ''S'', ''D'']. \<forall>t. \<exists>e.
      fst (get_spot_mid venue_example ''FEUSD'' q t) = Inl e"
    using venue_unknown_quote by blast
  have "spot_calls (snd (resolve_stable_usd_factor venue_example ''FEUSD'' default_preferred_quotes
       (Some evm_addr_example) ''USDC'' [])) =
     spot_calls [] @ map (Pair ''FEUSD'') [''F'', ''E'', ''U'', ''S'', ''D'']"
    by (rule default_quotes_are_characters
        [THEN conjunct2, THEN conjunct2, THEN conjunct1, THEN mp, OF spot])
  then show ?thesis by simp
qed

section \<open>Properties of the DEX pool price\<close>

subsection \<open>One pass of the loop body\<close>

lemma token_address_dict:
  assumes "token_address p k = Inr a"
  shows "\<exists>kvs. p = JDict kvs"
  using assms by (cases p) (simp_all add: token_address_def)

lemma well_formed_price_str:
  assumes "well_formed_pool p"
  shows "\<exists>ps. pool_price_str p = Inr ps"
proof -
  from assms obtain b where "token_address p ''baseToken'' = Inr b"
    by (auto simp: well_formed_pool_def split: sum.splits)
  then obtain kvs where "p = JDict kvs" using token_address_dict by blast
  then show ?thesis by (simp add: pool_price_str_def)
qed

text \<open>What one pass of the body can do, for a well-formed pool.\<close>

lemma pool_step_cases:
  assumes "well_formed_pool p"
  obtains (skip) "\<not> pool_has_addresses p" "pool_step E tokenA tB p bl bp = Next bl bp"
  | (return) ps v where "pool_has_addresses p" "pool_price_str p = Inr ps" "py_truthy ps"
      "py_float E ps = Inr v" "pool_step E tokenA tB p bl bp = Return v"
  | (return_inv) ps v where "pool_has_addresses p" "pool_price_str p = Inr ps" "py_truthy ps"
      "py_float E ps = Inr v" "v \<noteq> 0" "pool_step E tokenA tB p bl bp = Return (1 / v)"
  | (track) ps where "pool_has_addresses p" "pool_price_str p = Inr ps" "py_truthy ps"
      "pool_liq_usd E p > bl" "pool_step E tokenA tB p bl bp = Next (pool_liq_usd E p) (Some ps)"
  | (keep) ps where "pool_has_addresses p" "pool_price_str p = Inr ps"
      "\<not> (pool_liq_usd E p > bl \<and> py_truthy ps)" "pool_step E tokenA tB p bl bp = Next bl bp"
proof -
  from assms obtain b q where a: "token_address p ''baseToken'' = Inr b" "token_address p ''quoteToken'' = Inr q"
    by (auto simp: well_formed_pool_def split: sum.splits)
  from well_formed_price_str [OF assms] obtain ps where ps: "pool_price_str p = Inr ps" by blast
  show thesis
  proof (cases "b = [] \<or> q = []")
    case True
    with a have "\<not> pool_has_addresses p" "pool_step E tokenA tB p bl bp = Next bl bp"
      by (auto simp: pool_has_addresses_def pool_step_def)
    then show thesis by (rule skip)
  next
    case False
    with a have h: "pool_has_addresses p" by (simp add: pool_has_addresses_def)
    show thesis
    proof (cases "exact_orientation E tokenA tB b q ps")
      case (Some v)
      then have "py_truthy ps" "py_float E ps = Inr v"
        by (auto simp: exact_orientation_def split: if_splits sum.splits)
      moreover have "pool_step E tokenA tB p bl bp = Return v"
        using a ps False Some by (simp add: pool_step_def)
      ultimately show thesis using h ps by (intro return)
    next
      case None
      note ex = None
      show thesis
      proof (cases "inverted_orientation E tokenA tB b q ps")
        case (Some r)
        then obtain v where "py_truthy ps" "py_float E ps = Inr v" "v \<noteq> 0" "r = 1 / v"
          by (auto simp: inverted_orientation_def split: if_splits sum.splits)
        moreover have "pool_step E tokenA tB p bl bp = Return r"
          using a ps False ex Some by (simp add: pool_step_def)
        ultimately show thesis using h ps by (intro return_inv) simp_all
      next
        case None
        show thesis
        proof (cases "pool_liq_usd E p > bl \<and> py_truthy ps")
          case True
          then have "pool_step E tokenA tB p bl bp = Next (pool_liq_usd E p) (Some ps)"
            using a ps False ex None by (simp add: pool_step_def)
          with True h ps show thesis by (intro track) simp_all
        next
          case f: False
          then have "pool_step E tokenA tB p bl bp = Next bl bp"
            using a ps False ex None by (auto simp: pool_step_def)
          with f h ps show thesis by (intro keep) simp_all
        qed
      qed
    qed
  qed
qed


lemma parsed_price_iff:
  assumes "pool_price_str p = Inr ps"
  shows "pool_parsed_price E p = Some v \<longleftrightarrow> py_truthy ps \<and> py_float E ps = Inr v"
  using assms by (auto simp: pool_parsed_price_def split: sum.splits)

lemma parsed_price_none:
  assumes "pool_price_str p = Inr ps" "pool_parsed_price E p = None" "py_truthy ps"
  shows "\<exists>e. py_float E ps = Inl e"
  using assms by (auto simp: pool_parsed_price_def split: sum.splits)

text \<open>No pool with a parseable price, and a candidate (if any) that does not parse.\<close>

lemma scan_pools_no_price:
  assumes "\<forall>p\<in>set ps. well_formed_pool p \<and> pool_parsed_price E p = None"
    and "\<forall>x. bp = Some x \<longrightarrow> (\<exists>e. py_float E x = Inl e)"
  shows "scan_pools E tokenA tokenB ps bl bp = Inl (NoPoolFound tokenA tokenB)"
  using assms
proof (induction ps arbitrary: bl bp)
  case Nil
  then show ?case by (cases bp) auto
next
  case (Cons p ps)
  from Cons.prems(1) have wf: "well_formed_pool p" and np: "pool_parsed_price E p = None"
    and rest: "\<forall>p\<in>set ps. well_formed_pool p \<and> pool_parsed_price E p = None" by simp_all
  from wf show ?case
  proof (cases rule: pool_step_cases [where E = E and tokenA = tokenA and tB = "py_lower tokenB"
        and bl = bl and bp = bp])
    case skip
    with Cons.IH [OF rest Cons.prems(2)] show ?thesis by simp
  next
    case (return x v)
    with parsed_price_iff [OF return(2), of E v] np show ?thesis by simp
  next
    case (return_inv x v)
    with parsed_price_iff [OF return_inv(2), of E v] np show ?thesis by simp
  next
    case (track x)
    from parsed_price_none [OF track(2) np track(3)]
    have "\<forall>y. Some x = Some y \<longrightarrow> (\<exists>e. py_float E y = Inl e)" by simp
    from Cons.IH [OF rest this] track show ?thesis by simp
  next
    case (keep x)
    with Cons.IH [OF rest Cons.prems(2)] show ?thesis by simp
  qed
qed

lemma get_pair_mid_scan:
  assumes "load_pairs_for_token E tokenA (tr @ [GetPairMid tokenA tokenB]) = (Inr pairs, tr1)"
    and "py_iter pairs = Inr ps"
  shows "fst (get_pair_mid_from_dexscreener E tokenA tokenB tr) =
         scan_pools E tokenA tokenB ps (- 1) None"
  using assms by (simp add: get_pair_mid_from_dexscreener_def)

lemma passes_next:
  assumes "passes E tokenA tokenB q"
  shows "\<exists>bl' bp'. pool_step E tokenA (py_lower tokenB) q bl bp = Next bl' bp'"
  using assms
  by (auto simp: passes_def pool_step_def Let_def split: sum.splits option.splits if_splits)

lemma scan_pools_prefix:
  assumes "\<forall>q\<in>set pre. passes E tokenA tokenB q"
  shows "\<exists>bl' bp'. scan_pools E tokenA tokenB (pre @ rest) bl bp = scan_pools E tokenA tokenB rest bl' bp'"
  using assms
proof (induction pre arbitrary: bl bp)
  case Nil
  show ?case by auto
next
  case (Cons q pre)
  from Cons.prems have "passes E tokenA tokenB q" by simp
  from passes_next [OF this, of bl bp] obtain bl1 bp1 where
    n: "pool_step E tokenA (py_lower tokenB) q bl bp = Next bl1 bp1" by blast
  from Cons.prems have "\<forall>q\<in>set pre. passes E tokenA tokenB q" by simp
  from Cons.IH [OF this, of bl1 bp1] n show ?case by simp
qed

lemma py_lower_empty: "py_lower s = [] \<longleftrightarrow> s = []"
  by (simp add: py_lower_def)

subsection \<open>The fallback candidate\<close>

lemma highest_liquidity_mem:
  assumes "highest_liquidity E ps = Some q"
  shows "q \<in> set ps"
  using assms
  by (induction ps arbitrary: q) (auto split: option.splits if_splits)

lemma highest_liquidity_above:
  assumes "\<forall>q\<in>set ps. pool_liq_usd E q \<noteq> NaN" and "x \<noteq> NaN"
  shows "highest_liquidity E (filter (\<lambda>q. pool_liq_usd E q > x) ps) =
         (case highest_liquidity E ps of
            None \<Rightarrow> None
          | Some q \<Rightarrow> if pool_liq_usd E q > x then Some q else None)"
  using assms(1)
proof (induction ps)
  case Nil
  show ?case by simp
next
  case (Cons a ps)
  then have IH: "highest_liquidity E (filter (\<lambda>q. pool_liq_usd E q > x) ps) =
         (case highest_liquidity E ps of
            None \<Rightarrow> None
          | Some q \<Rightarrow> if pool_liq_usd E q > x then Some q else None)" by simp
  from Cons.prems have a: "pool_liq_usd E a \<noteq> NaN" by simp
  show ?case
  proof (cases "highest_liquidity E ps")
    case None
    with IH show ?thesis by simp
  next
    case (Some q)
    then have "q \<in> set ps" by (rule highest_liquidity_mem)
    with Cons.prems have q: "pool_liq_usd E q \<noteq> NaN" by simp
    show ?thesis
    proof (cases "pool_liq_usd E a > x")
      case True
      note ax = True
      show ?thesis
      proof (cases "pool_liq_usd E q > x")
        case True
        with ax Some IH show ?thesis by simp
      next
        case False
        have "\<not> pool_liq_usd E q > pool_liq_usd E a"
        proof
          assume "pool_liq_usd E q > pool_liq_usd E a"
          with ax have "pool_liq_usd E q > x" by (rule pyfloat_less_trans)
          with False show False by simp
        qed
        with ax False Some IH show ?thesis by simp
      qed
    next
      case False
      note nax = False
      show ?thesis
      proof (cases "pool_liq_usd E q > pool_liq_usd E a")
        case True
        with nax Some IH show ?thesis by simp
      next
        case False
        from assms(2) a q nax False have "\<not> pool_liq_usd E q > x"
          by (rule pyfloat_not_less_trans)
        with nax False Some IH show ?thesis by simp
      qed
    qed
  qed
qed

lemma pool_step_return_state:
  assumes "pool_step E tokenA tB p bl bp = Return v"
  shows "pool_step E tokenA tB p bl' bp' = Return v"
  using assms
  by (auto simp: pool_step_def Let_def split: sum.splits option.splits if_splits)

lemma not_passes_returns:
  assumes wf: "well_formed_pool p" and np: "\<not> passes E tokenA tokenB p"
  shows "\<exists>v. pool_step E tokenA (py_lower tokenB) p bl bp = Return v"
proof -
  from wf have "\<exists>v. pool_step E tokenA (py_lower tokenB) p 0 None = Return v"
  proof (cases rule: pool_step_cases [where E = E and tokenA = tokenA and tB = "py_lower tokenB"
        and bl = 0 and bp = None])
    case skip
    with np show ?thesis by (simp add: passes_def)
  next
    case (return x v)
    then show ?thesis by simp
  next
    case (return_inv x v)
    then show ?thesis by simp
  next
    case (track x)
    with np show ?thesis by (simp add: passes_def)
  next
    case (keep x)
    with np show ?thesis by (simp add: passes_def)
  qed
  then obtain v where "pool_step E tokenA (py_lower tokenB) p 0 None = Return v" ..
  then have "pool_step E tokenA (py_lower tokenB) p bl bp = Return v"
    by (rule pool_step_return_state)
  then show ?thesis ..
qed

lemma scan_pools_returns:
  assumes wf: "\<forall>p\<in>set ps. well_formed_pool p"
    and np: "\<not> (\<forall>p\<in>set ps. passes E tokenA tokenB p)"
  shows "\<exists>v. scan_pools E tokenA tokenB ps bl bp = Inr v"
proof -
  from np have "\<exists>p\<in>set ps. \<not> passes E tokenA tokenB p" by simp
  then obtain pre p rest where ps: "ps = pre @ p # rest"
    and p: "\<not> passes E tokenA tokenB p"
    and pre: "\<forall>q\<in>set pre. \<not> \<not> passes E tokenA tokenB q"
    by (auto dest!: split_list_first_prop)
  from pre have "\<forall>q\<in>set pre. passes E tokenA tokenB q" by simp
  from scan_pools_prefix [OF this, of "p # rest" bl bp] obtain bl' bp' where
    s: "scan_pools E tokenA tokenB (pre @ p # rest) bl bp =
        scan_pools E tokenA tokenB (p # rest) bl' bp'" by blast
  from wf ps have "well_formed_pool p" by simp
  from not_passes_returns [OF this p, of bl' bp'] obtain v where
    "pool_step E tokenA (py_lower tokenB) p bl' bp' = Return v" ..
  with s ps show ?thesis by simp
qed

text \<open>
  When every pool passes, the scan ends with the price field of the pool of highest
  liquidity among those that have both addresses, a price field and a liquidity above
  the starting one, or with the starting candidate when there is none.
\<close>

lemma scan_pools_fallback:
  assumes "\<forall>p\<in>set ps. well_formed_pool p \<and> passes E tokenA tokenB p"
  shows "scan_pools E tokenA tokenB ps bl bp =
         scan_pools E tokenA tokenB [] bl
           (case highest_liquidity E
                   (filter (\<lambda>q. pool_has_addresses q \<and> pool_has_price q \<and> pool_liq_usd E q > bl) ps) of
              None \<Rightarrow> bp
            | Some c \<Rightarrow> (case pool_price_str c of Inr x \<Rightarrow> Some x | Inl e \<Rightarrow> None))"
  using assms
proof (induction ps arbitrary: bl bp)
  case Nil
  show ?case by simp
next
  case (Cons p ps)
  from Cons.prems have wf: "well_formed_pool p" and pa: "passes E tokenA tokenB p"
    and rest: "\<forall>p\<in>set ps. well_formed_pool p \<and> passes E tokenA tokenB p" by simp_all
  from passes_next [OF pa, of bl bp] obtain bl1 bp1 where
    nxt: "pool_step E tokenA (py_lower tokenB) p bl bp = Next bl1 bp1" by blast
  let ?F = "\<lambda>b. filter (\<lambda>q. pool_has_addresses q \<and> pool_has_price q \<and> pool_liq_usd E q > b)"
  let ?P = "\<lambda>c. case pool_price_str c of Inr x \<Rightarrow> Some x | Inl e \<Rightarrow> None"
  from wf show ?case
  proof (cases rule: pool_step_cases [where E = E and tokenA = tokenA and tB = "py_lower tokenB"
        and bl = bl and bp = bp])
    case skip
    with Cons.IH [OF rest, of bl bp] show ?thesis by simp
  next
    case (return x v)
    with nxt show ?thesis by simp
  next
    case (return_inv x v)
    with nxt show ?thesis by simp
  next
    case (keep x)
    then have "\<not> (pool_has_price p \<and> pool_liq_usd E p > bl)"
      by (auto simp: pool_has_price_def)
    with keep Cons.IH [OF rest, of bl bp] show ?thesis by auto
  next
    case (track x)
    let ?l = "pool_liq_usd E p"
    let ?L = "?F bl ps"
    from track have hp: "pool_has_price p" by (simp add: pool_has_price_def)
    from track(4) have nan: "?l \<noteq> NaN" "bl \<noteq> NaN"
      using pyfloat_less_not_nan [of bl ?l] by simp_all
    have Lnan: "\<forall>q\<in>set ?L. pool_liq_usd E q \<noteq> NaN"
      using pyfloat_less_not_nan by auto
    have "?F ?l ps = filter (\<lambda>q. pool_liq_usd E q > ?l) ?L"
      using pyfloat_less_trans [OF track(4)] by (auto intro!: filter_cong)
    then have above: "highest_liquidity E (?F ?l ps) =
        (case highest_liquidity E ?L of
           None \<Rightarrow> None
         | Some q \<Rightarrow> if pool_liq_usd E q > ?l then Some q else None)"
      using highest_liquidity_above [OF Lnan nan(1)] by simp
    have cons: "?F bl (p # ps) = p # ?L" using track(1,4) hp by simp
    have step: "scan_pools E tokenA tokenB (p # ps) bl bp =
        scan_pools E tokenA tokenB ps ?l (Some x)" using track by simp
    have fin: "scan_pools E tokenA tokenB [] a c = scan_pools E tokenA tokenB [] b c" for a b c
      by simp
    show ?thesis
      unfolding step Cons.IH [OF rest, of ?l "Some x"] cons above
      using track(2) by (auto split: option.splits intro: fin)
  qed
qed

subsection \<open>When the scan fails\<close>

text \<open>
  C3 (amended). For well-formed pool records, \<open>get_pair_mid_from_dexscreener\<close> fails
  with \<open>NoPoolFound\<close> if and only if no scanned pool returns through the exact or the
  inverted orientation and the fallback candidate (the pool of highest USD liquidity,
  the earliest on a tie, among those with both addresses, a non-empty price field and a
  liquidity above \<open>-1\<close>) is missing or has a price field that does not parse. When no
  pool returns through an orientation and the price field of the candidate parses, the
  call succeeds with that price. In particular the call fails with \<open>NoPoolFound\<close> when
  no pool yields a parseable price.
\<close>

theorem no_pool_found_iff:
  assumes load: "load_pairs_for_token E tokenA (tr @ [GetPairMid tokenA tokenB]) = (Inr pairs, tr1)"
    and iter: "py_iter pairs = Inr ps"
    and wf: "\<forall>p\<in>set ps. well_formed_pool p"
  shows "(fst (get_pair_mid_from_dexscreener E tokenA tokenB tr) = Inl (NoPoolFound tokenA tokenB) \<longleftrightarrow>
            (\<forall>p\<in>set ps. passes E tokenA tokenB p) \<and>
            (\<forall>c. fallback_candidate E ps = Some c \<longrightarrow> pool_parsed_price E c = None)) \<and>
         (\<forall>c v. (\<forall>p\<in>set ps. passes E tokenA tokenB p) \<and> fallback_candidate E ps = Some c \<and>
                pool_parsed_price E c = Some v \<longrightarrow>
                fst (get_pair_mid_from_dexscreener E tokenA tokenB tr) = Inr v) \<and>
         ((\<forall>p\<in>set ps. pool_parsed_price E p = None) \<longrightarrow>
            fst (get_pair_mid_from_dexscreener E tokenA tokenB tr) = Inl (NoPoolFound tokenA tokenB))"
proof -
  let ?res = "fst (get_pair_mid_from_dexscreener E tokenA tokenB tr)"
  let ?all = "\<forall>p\<in>set ps. passes E tokenA tokenB p"
  have res: "?res = scan_pools E tokenA tokenB ps (- 1) None"
    by (rule get_pair_mid_scan [OF load iter])
  have filt: "filter (\<lambda>q. pool_has_addresses q \<and> pool_has_price q \<and> pool_liq_usd E q > - 1) ps =
      filter (eligible E) ps"
    by (rule filter_cong) (simp_all add: eligible_def)
  have pass: "?res = scan_pools E tokenA tokenB [] (- 1)
      (case fallback_candidate E ps of
         None \<Rightarrow> None
       | Some c \<Rightarrow> (case pool_price_str c of Inr x \<Rightarrow> Some x | Inl e \<Rightarrow> None))" if ?all
  proof -
    from wf that have "\<forall>p\<in>set ps. well_formed_pool p \<and> passes E tokenA tokenB p" by simp
    from scan_pools_fallback [OF this, of "- 1" None] show ?thesis
      unfolding res filt fallback_candidate_def .
  qed
  have cand: "\<exists>x. pool_price_str c = Inr x \<and> py_truthy x" if "fallback_candidate E ps = Some c" for c
  proof -
    from that have "c \<in> set (filter (eligible E) ps)"
      unfolding fallback_candidate_def by (rule highest_liquidity_mem)
    then have "pool_has_price c" by (simp add: eligible_def)
    then show ?thesis by (auto simp: pool_has_price_def split: sum.splits)
  qed
  have none: "?res = Inl (NoPoolFound tokenA tokenB)"
    if ?all "\<forall>c. fallback_candidate E ps = Some c \<longrightarrow> pool_parsed_price E c = None"
  proof (cases "fallback_candidate E ps")
    case None
    with pass [OF that(1)] show ?thesis by simp
  next
    case (Some c)
    from cand [OF Some] obtain x where x: "pool_price_str c = Inr x" "py_truthy x" by blast
    from that(2) Some have "pool_parsed_price E c = None" by simp
    from parsed_price_none [OF x(1) this x(2)] obtain e where "py_float E x = Inl e" ..
    with pass [OF that(1)] Some x show ?thesis by simp
  qed
  have some: "?res = Inr v"
    if ?all "fallback_candidate E ps = Some c" "pool_parsed_price E c = Some v" for c v
  proof -
    from cand [OF that(2)] obtain x where x: "pool_price_str c = Inr x" "py_truthy x" by blast
    with that(3) have "py_float E x = Inr v" by (simp add: parsed_price_iff)
    with pass [OF that(1)] that(2) x show ?thesis by simp
  qed
  have ret: "\<exists>v. ?res = Inr v" if "\<not> ?all"
    unfolding res using wf that by (rule scan_pools_returns)
  have iff: "?res = Inl (NoPoolFound tokenA tokenB) \<longleftrightarrow>
      ?all \<and> (\<forall>c. fallback_candidate E ps = Some c \<longrightarrow> pool_parsed_price E c = None)"
  proof
    assume f: "?res = Inl (NoPoolFound tokenA tokenB)"
    have a: ?all
    proof (rule ccontr)
      assume "\<not> ?all"
      from ret [OF this] f show False by simp
    qed
    have "pool_parsed_price E c = None" if "fallback_candidate E ps = Some c" for c
    proof (cases "pool_parsed_price E c")
      case None
      then show ?thesis .
    next
      case (Some v)
      from some [OF a that Some] f show ?thesis by simp
    qed
    with a show "?all \<and> (\<forall>c. fallback_candidate E ps = Some c \<longrightarrow> pool_parsed_price E c = None)"
      by blast
  next
    assume "?all \<and> (\<forall>c. fallback_candidate E ps = Some c \<longrightarrow> pool_parsed_price E c = None)"
    then show "?res = Inl (NoPoolFound tokenA tokenB)" using none by blast
  qed
  have np: "?res = Inl (NoPoolFound tokenA tokenB)" if "\<forall>p\<in>set ps. pool_parsed_price E p = None"
  proof -
    from wf that have "\<forall>p\<in>set ps. well_formed_pool p \<and> pool_parsed_price E p = None" by simp
    then have "scan_pools E tokenA tokenB ps (- 1) None = Inl (NoPoolFound tokenA tokenB)"
      by (rule scan_pools_no_price) simp
    then show ?thesis by (simp add: res)
  qed
  from iff some np show ?thesis by blast
qed

theorem no_pool_found_iff_witness:
  "fst (get_pair_mid_from_dexscreener dex_fallback_example ''0xAa01'' ''0xBb02'' []) = Inr (3 / 2) \<and>
   fst (get_pair_mid_from_dexscreener dex_example ''0xAa05'' ''0xBb02'' []) =
     Inl (NoPoolFound ''0xAa05'' ''0xBb02'')"
proof
  let ?c = "dex_pool ''0xCC03'' ''0xaa01'' ''1.5'' 900"
  let ?ps = "[?c, dex_pool ''0xDD04'' ''0xaa01'' ''n/a'' 50]"
  have load: "load_pairs_for_token dex_fallback_example ''0xAa01'' ([] @ [GetPairMid ''0xAa01'' ''0xBb02'']) =
      (Inr (JList ?ps), [GetPairMid ''0xAa01'' ''0xBb02'', DexGet ''0xAa01''])"
    by (simp add: load_pairs_for_token_def dex_fallback_example_def py_or_def)
  have iter: "py_iter (JList ?ps) = Inr ?ps" by simp
  have wf: "\<forall>p\<in>set ?ps. well_formed_pool p"
    by (simp add: well_formed_pool_def token_address_def dex_pool_def py_or_def)
  have pass: "\<forall>p\<in>set ?ps. passes dex_fallback_example ''0xAa01'' ''0xBb02'' p"
    by (simp add: passes_def dex_defs dex_fallback_example_def)
  have cand: "fallback_candidate dex_fallback_example ?ps = Some ?c"
    by (simp add: fallback_candidate_def eligible_def pool_has_addresses_def pool_has_price_def
        pool_liq_usd_def pool_price_str_def token_address_def dex_pool_def py_or_def
        py_lower_def lower_char_def)
  have price: "pool_parsed_price dex_fallback_example ?c = Some (3 / 2)"
    by (simp add: pool_parsed_price_def pool_price_str_def dex_pool_def dex_example_def
        dex_fallback_example_def)
  from no_pool_found_iff [OF load iter wf, THEN conjunct2, THEN conjunct1, rule_format,
      OF conjI, OF pass conjI, OF cand price]
  show "fst (get_pair_mid_from_dexscreener dex_fallback_example ''0xAa01'' ''0xBb02'' []) = Inr (3 / 2)" .
next
  let ?c = "dex_pool ''0xCC03'' ''0xaa05'' ''n/a'' 900"
  let ?ps = "pools_example ''0xAa05''"
  have load: "load_pairs_for_token dex_example ''0xAa05'' ([] @ [GetPairMid ''0xAa05'' ''0xBb02'']) =
      (Inr (JList ?ps), [GetPairMid ''0xAa05'' ''0xBb02'', DexGet ''0xAa05''])"
    by (simp add: load_pairs_for_token_def dex_example_def py_or_def pools_example_def)
  have iter: "py_iter (JList ?ps) = Inr ?ps" by simp
  have wf: "\<forall>p\<in>set ?ps. well_formed_pool p"
    by (simp add: pools_example_def well_formed_pool_def token_address_def dex_pool_def py_or_def)
  have pass: "\<forall>p\<in>set ?ps. passes dex_example ''0xAa05'' ''0xBb02'' p"
    by (simp add: passes_def dex_defs)
  have cand: "fallback_candidate dex_example ?ps = Some ?c"
    by (simp add: fallback_candidate_def eligible_def pool_has_addresses_def pool_has_price_def
        pool_liq_usd_def pool_price_str_def token_address_def dex_pool_def py_or_def
        py_lower_def lower_char_def pools_example_def)
  have price: "pool_parsed_price dex_example ?c = None"
    by (simp add: pool_parsed_price_def pool_price_str_def dex_pool_def dex_example_def)
  have "\<forall>c. fallback_candidate dex_example ?ps = Some c \<longrightarrow> pool_parsed_price dex_example c = None"
    using cand price by simp
  with pass have "(\<forall>p\<in>set ?ps. passes dex_example ''0xAa05'' ''0xBb02'' p) \<and>
      (\<forall>c. fallback_candidate dex_example ?ps = Some c \<longrightarrow> pool_parsed_price dex_example c = None)"
    by (rule conjI)
  with no_pool_found_iff [OF load iter wf, THEN conjunct1]
  show "fst (get_pair_mid_from_dexscreener dex_example ''0xAa05'' ''0xBb02'' []) =
     Inl (NoPoolFound ''0xAa05'' ''0xBb02'')" by (rule iffD2)
qed

text \<open>
  C3 as stated fails: the fallback keeps the price field of the pool of highest
  liquidity without parsing it. With an unparseable price on that pool the call fails
  with \<open>NoPoolFound\<close>, although a pool of lower liquidity, in neither orientation,
  reports the parseable price \<open>1.5\<close>.
\<close>

theorem no_pool_found_counterexample:
  "dex_pool ''0xDD04'' ''0xaa05'' ''1.5'' 50 \<in> set (pools_example ''0xAa05'') \<and>
   pool_parsed_price dex_example (dex_pool ''0xDD04'' ''0xaa05'' ''1.5'' 50) = Some (3 / 2) \<and>
   fst (get_pair_mid_from_dexscreener dex_example ''0xAa05'' ''0xBb02'' []) =
     Inl (NoPoolFound ''0xAa05'' ''0xBb02'')"
proof (intro conjI)
  show "dex_pool ''0xDD04'' ''0xaa05'' ''1.5'' 50 \<in> set (pools_example ''0xAa05'')"
    by (simp add: pools_example_def)
  show "pool_parsed_price dex_example (dex_pool ''0xDD04'' ''0xaa05'' ''1.5'' 50) = Some (3 / 2)"
    by (simp add: pool_parsed_price_def pool_price_str_def dex_pool_def dex_example_def)
  show "fst (get_pair_mid_from_dexscreener dex_example ''0xAa05'' ''0xBb02'' []) =
     Inl (NoPoolFound ''0xAa05'' ''0xBb02'')"
    by (simp add: dex_defs)
qed

subsection \<open>The sign of the result\<close>






subsection \<open>The inverted orientation\<close>

text \<open>
  C7 (amended). For two tokens whose addresses differ (case-insensitively), a pool
  that the scan reaches, with base address \<open>tokenB\<close>, quote address \<open>tokenA\<close> and a
  parseable price \<open>v\<close>: when \<open>v\<close> is not zero the call returns \<open>1 / v\<close>; when \<open>v\<close> is zero
  the body neither returns nor raises, and the scan goes on.
\<close>

theorem inverted_pool_reciprocal:
  assumes load: "load_pairs_for_token E tokenA (tr @ [GetPairMid tokenA tokenB]) = (Inr pairs, tr1)"
    and iter: "py_iter pairs = Inr (pre @ p # rest)"
    and reach: "\<forall>q\<in>set pre. passes E tokenA tokenB q"
    and base: "token_address p ''baseToken'' = Inr (py_lower tokenB)"
    and quote: "token_address p ''quoteToken'' = Inr (py_lower tokenA)"
    and ne: "tokenA \<noteq> []" "tokenB \<noteq> []"
    and distinct: "py_lower tokenA \<noteq> py_lower tokenB"
    and price: "pool_parsed_price E p = Some v"
  shows "(v \<noteq> 0 \<longrightarrow> fst (get_pair_mid_from_dexscreener E tokenA tokenB tr) = Inr (1 / v)) \<and>
         (v = 0 \<longrightarrow> passes E tokenA tokenB p)"
proof -
  from price obtain ps where ps: "pool_price_str p = Inr ps"
    by (cases "pool_price_str p") (simp_all add: pool_parsed_price_def)
  with price have t: "py_truthy ps" and f: "py_float E ps = Inr v"
    by (simp_all add: parsed_price_iff)
  have ex: "exact_orientation E tokenA (py_lower tokenB) (py_lower tokenB) (py_lower tokenA) ps = None"
    using distinct by (auto simp: exact_orientation_def)
  have step: "pool_step E tokenA (py_lower tokenB) p bl bp = Return (1 / v)" if "v \<noteq> 0" for bl bp
    using that base quote ne ps t f ex
    by (simp add: pool_step_def inverted_orientation_def py_lower_empty)
  have zero: "passes E tokenA tokenB p" if "v = 0"
    using that base quote ne ps t f ex
    by (simp add: passes_def pool_step_def inverted_orientation_def py_lower_empty Let_def)
  have "fst (get_pair_mid_from_dexscreener E tokenA tokenB tr) = Inr (1 / v)" if nz: "v \<noteq> 0"
  proof -
    from scan_pools_prefix [OF reach, of "p # rest" "- 1" None] obtain bl' bp' where
      "scan_pools E tokenA tokenB (pre @ p # rest) (- 1) None =
       scan_pools E tokenA tokenB (p # rest) bl' bp'" by blast
    with step [OF nz, of bl' bp'] show ?thesis
      by (simp add: get_pair_mid_scan [OF load iter])
  qed
  with zero show ?thesis by blast
qed

theorem inverted_pool_reciprocal_witness:
  "fst (get_pair_mid_from_dexscreener dex_example ''0xAa01'' ''0xBb02'' []) = Inr (1 / 2) \<and>
   passes dex_example ''0xAa09'' ''0xBb02'' (dex_pool ''0xBB02'' ''0xAA09'' ''0'' 100)"
proof
  let ?p = "dex_pool ''0xBB02'' ''0xAA01'' ''2.0'' 100"
  have load: "load_pairs_for_token dex_example ''0xAa01'' ([] @ [GetPairMid ''0xAa01'' ''0xBb02'']) =
      (Inr (JList (pools_example ''0xAa01'')), [GetPairMid ''0xAa01'' ''0xBb02'', DexGet ''0xAa01''])"
    by (simp add: load_pairs_for_token_def dex_example_def py_or_def pools_example_def)
  have iter: "py_iter (JList (pools_example ''0xAa01'')) =
      Inr ([dex_pool ''0xCC03'' ''0xaa01'' ''3.0'' 500] @ ?p # [])"
    by (simp add: pools_example_def)
  have reach: "\<forall>q\<in>set [dex_pool ''0xCC03'' ''0xaa01'' ''3.0'' 500]. passes dex_example ''0xAa01'' ''0xBb02'' q"
    by (simp add: passes_def dex_defs)
  have base: "token_address ?p ''baseToken'' = Inr (py_lower ''0xBb02'')"
    by (simp add: token_address_def dex_pool_def py_or_def)
  have quote: "token_address ?p ''quoteToken'' = Inr (py_lower ''0xAa01'')"
    by (simp add: token_address_def dex_pool_def py_or_def)
  have ne: "''0xAa01'' \<noteq> []" "''0xBb02'' \<noteq> []" by simp_all
  have distinct: "py_lower ''0xAa01'' \<noteq> py_lower ''0xBb02''" by simp
  have price: "pool_parsed_price dex_example ?p = Some 2"
    by (simp add: pool_parsed_price_def pool_price_str_def dex_pool_def dex_example_def)
  from inverted_pool_reciprocal [OF load iter reach base quote ne distinct price, THEN conjunct1]
  show "fst (get_pair_mid_from_dexscreener dex_example ''0xAa01'' ''0xBb02'' []) = Inr (1 / 2)"
    by simp
next
  let ?p = "dex_pool ''0xBB02'' ''0xAA09'' ''0'' 100"
  have load: "load_pairs_for_token dex_example ''0xAa09'' ([] @ [GetPairMid ''0xAa09'' ''0xBb02'']) =
      (Inr (JList (pools_example ''0xAa09'')), [GetPairMid ''0xAa09'' ''0xBb02'', DexGet ''0xAa09''])"
    by (simp add: load_pairs_for_token_def dex_example_def py_or_def pools_example_def)
  have iter: "py_iter (JList (pools_example ''0xAa09'')) = Inr ([] @ ?p # [])"
    by (simp add: pools_example_def)
  have reach: "\<forall>q\<in>set []. passes dex_example ''0xAa09'' ''0xBb02'' q" by simp
  have base: "token_address ?p ''baseToken'' = Inr (py_lower ''0xBb02'')"
    by (simp add: token_address_def dex_pool_def py_or_def)
  have quote: "token_address ?p ''quoteToken'' = Inr (py_lower ''0xAa09'')"
    by (simp add: token_address_def dex_pool_def py_or_def)
  have ne: "''0xAa09'' \<noteq> []" "''0xBb02'' \<noteq> []" by simp_all
  have distinct: "py_lower ''0xAa09'' \<noteq> py_lower ''0xBb02''" by simp
  have price: "pool_parsed_price dex_example ?p = Some 0"
    by (simp add: pool_parsed_price_def pool_price_str_def dex_pool_def dex_example_def)
  from inverted_pool_reciprocal [OF load iter reach base quote ne distinct price, THEN conjunct2]
  show "passes dex_example ''0xAa09'' ''0xBb02'' ?p" by simp
qed

text \<open>
  C7 as stated fails when \<open>tokenA\<close> and \<open>tokenB\<close> are the same address: the pool is
  then also in the exact orientation, which is tested first, and the call returns the
  price \<open>2\<close> itself, not \<open>1 / 2\<close>.
\<close>

theorem inverted_pool_counterexample:
  "token_address (dex_pool ''0xaa07'' ''0xAA07'' ''2.0'' 100) ''baseToken'' = Inr (py_lower ''0xAa07'') \<and>
   token_address (dex_pool ''0xaa07'' ''0xAA07'' ''2.0'' 100) ''quoteToken'' = Inr (py_lower ''0xAa07'') \<and>
   pool_parsed_price dex_example (dex_pool ''0xaa07'' ''0xAA07'' ''2.0'' 100) = Some 2 \<and>
   fst (get_pair_mid_from_dexscreener dex_example ''0xAa07'' ''0xAa07'' []) = Inr 2"
proof (intro conjI)
  show "token_address (dex_pool ''0xaa07'' ''0xAA07'' ''2.0'' 100) ''baseToken'' = Inr (py_lower ''0xAa07'')"
    by (simp add: token_address_def dex_pool_def py_or_def)
  show "token_address (dex_pool ''0xaa07'' ''0xAA07'' ''2.0'' 100) ''quoteToken'' = Inr (py_lower ''0xAa07'')"
    by (simp add: token_address_def dex_pool_def py_or_def)
  show "pool_parsed_price dex_example (dex_pool ''0xaa07'' ''0xAA07'' ''2.0'' 100) = Some 2"
    by (simp add: pool_parsed_price_def pool_price_str_def dex_pool_def dex_example_def)
  show "fst (get_pair_mid_from_dexscreener dex_example ''0xAa07'' ''0xAa07'' []) = Inr 2"
    by (simp add: dex_defs)
qed

section \<open>Properties of the price fetcher\<close>

subsection \<open>Attempts and sleeps\<close>

lemma per_symbol_trace:
  "filter is_attempt_event (snd (per_symbol E endpoint smbs out tr)) = filter is_attempt_event tr"
proof (induction smbs arbitrary: out tr)
  case Nil
  show ?case by simp
next
  case (Cons smb smbs)
  show ?case
  proof (cases "http_get_json E tr endpoint ''symbol'' smb")
    case (Inl e)
    then show ?thesis by simp
  next
    case (Inr r)
    obtain status data where r: "r = (status, data)" by (cases r)
    show ?thesis
    proof (cases "status \<noteq> 200")
      case True
      with Inr r Cons.IH [of out "tr @ [HttpGet endpoint ''symbol'' smb]"] show ?thesis by simp
    next
      case False
      show ?thesis
      proof (cases "normalize_rs_payload E data")
        case (Inl e)
        with Inr r False Cons.IH [of out "tr @ [HttpGet endpoint ''symbol'' smb]"]
        show ?thesis by simp
      next
        case n: (Inr normalized)
        with Inr r False
          Cons.IH [of "case first_match E smb normalized of
                      Some entry \<Rightarrow> AList.update smb entry out | None \<Rightarrow> out"
            "tr @ [HttpGet endpoint ''symbol'' smb]"]
        show ?thesis by simp
      qed
    qed
  qed
qed

lemma try_redstone_endpoint_trace:
  "filter is_attempt_event (snd (try_redstone_endpoint E endpoint symbols tr)) =
   filter is_attempt_event tr @ [TryEndpoint endpoint]"
proof (cases "wanted_symbols symbols = []")
  case True
  then show ?thesis by (simp add: try_redstone_endpoint_def)
next
  case False
  let ?q = "py_join '','' (wanted_symbols symbols)"
  let ?tr0 = "tr @ [TryEndpoint endpoint]"
  show ?thesis
  proof (cases "http_get_json E ?tr0 endpoint ''symbols'' ?q")
    case (Inl e)
    with False show ?thesis by (simp add: try_redstone_endpoint_def)
  next
    case (Inr r)
    obtain status data where r: "r = (status, data)" by (cases r)
    show ?thesis
    proof (cases "batch_result E status data")
      case (Some out)
      with False Inr r show ?thesis by (simp add: try_redstone_endpoint_def)
    next
      case None
      obtain x t2 where p: "per_symbol E endpoint (wanted_symbols symbols) []
          (?tr0 @ [HttpGet endpoint ''symbols'' ?q]) = (x, t2)"
        by (cases "per_symbol E endpoint (wanted_symbols symbols) []
          (?tr0 @ [HttpGet endpoint ''symbols'' ?q])")
      have "filter is_attempt_event t2 = filter is_attempt_event (?tr0 @ [HttpGet endpoint ''symbols'' ?q])"
        using per_symbol_trace [of E endpoint "wanted_symbols symbols" "[]"
            "?tr0 @ [HttpGet endpoint ''symbols'' ?q]"] p by simp
      then have t2: "filter is_attempt_event t2 = filter is_attempt_event tr @ [TryEndpoint endpoint]"
        by simp
      show ?thesis
      proof (cases x)
        case (Inl e)
        with False Inr r None p t2 show ?thesis by (simp add: try_redstone_endpoint_def)
      next
        case o: (Inr out)
        with False Inr r None p t2 show ?thesis by (simp add: try_redstone_endpoint_def)
      qed
    qed
  qed
qed

lemma yields_nothing_step:
  assumes "yields_nothing E symbols ep tr"
  shows "scan_endpoints E symbols (ep # eps) last_err tr =
         scan_endpoints E symbols eps (Some (observed_error E symbols ep tr))
           (snd (try_redstone_endpoint E ep symbols tr))"
proof -
  obtain r tr1 where t: "try_redstone_endpoint E ep symbols tr = (r, tr1)"
    by (cases "try_redstone_endpoint E ep symbols tr")
  show ?thesis
  proof (cases r)
    case (Inl e)
    with t show ?thesis by (simp add: observed_error_def)
  next
    case (Inr result)
    with assms t have "result = []" by (simp add: yields_nothing_def)
    with t Inr show ?thesis by (simp add: observed_error_def)
  qed
qed

lemma scan_endpoints_nothing:
  assumes "\<forall>ep\<in>set eps. \<forall>t. yields_nothing E symbols ep t"
  shows "\<exists>last' tr'. scan_endpoints E symbols eps last_err tr = ((None, last'), tr') \<and>
           filter is_attempt_event tr' = filter is_attempt_event tr @ map TryEndpoint eps \<and>
           (eps = [] \<longrightarrow> last' = last_err \<and> tr' = tr) \<and>
           (eps \<noteq> [] \<longrightarrow>
              (\<exists>t. last' = Some (observed_error E symbols (last eps) t) \<and>
                   tr' = snd (try_redstone_endpoint E (last eps) symbols t)))"
  using assms
proof (induction eps arbitrary: last_err tr)
  case Nil
  show ?case by simp
next
  case (Cons ep eps)
  let ?tr1 = "snd (try_redstone_endpoint E ep symbols tr)"
  let ?e = "Some (observed_error E symbols ep tr)"
  from Cons.prems have y: "yields_nothing E symbols ep tr"
    and rest: "\<forall>ep\<in>set eps. \<forall>t. yields_nothing E symbols ep t" by simp_all
  have step: "scan_endpoints E symbols (ep # eps) last_err tr = scan_endpoints E symbols eps ?e ?tr1"
    using y by (rule yields_nothing_step)
  have tr1: "filter is_attempt_event ?tr1 = filter is_attempt_event tr @ [TryEndpoint ep]"
    by (rule try_redstone_endpoint_trace)
  from Cons.IH [OF rest, of ?e ?tr1] obtain last' tr' where
    s: "scan_endpoints E symbols eps ?e ?tr1 = ((None, last'), tr')"
    and f: "filter is_attempt_event tr' = filter is_attempt_event ?tr1 @ map TryEndpoint eps"
    and e: "eps = [] \<longrightarrow> last' = ?e \<and> tr' = ?tr1"
    and n: "eps \<noteq> [] \<longrightarrow>
              (\<exists>t. last' = Some (observed_error E symbols (last eps) t) \<and>
                   tr' = snd (try_redstone_endpoint E (last eps) symbols t))"
    by blast
  have l: "\<exists>t. last' = Some (observed_error E symbols (last (ep # eps)) t) \<and>
      tr' = snd (try_redstone_endpoint E (last (ep # eps)) symbols t)"
  proof (cases "eps = []")
    case True
    with e show ?thesis by auto
  next
    case False
    with n show ?thesis by simp
  qed
  show ?case
    unfolding step using s f tr1 l by simp
qed

lemma power_two_converts:
  assumes "n < 1024"
  shows "int_to_float (2 ^ n) = Inr (Finite (2 ^ n))"
proof -
  from assms have "n \<le> 1023" by simp
  then have "(2::real) ^ n \<le> 2 ^ 1023" by (intro power_increasing) simp_all
  moreover have "(2::real) ^ 970 < 2 ^ 1023" by (rule power_strict_increasing) simp_all
  moreover have "(2::real) ^ 1024 = 2 * 2 ^ 1023" by simp
  ultimately have "\<not> FLOAT_INT_LIMIT \<le> 2 ^ n" by (simp add: FLOAT_INT_LIMIT_def)
  then show ?thesis by (simp add: int_to_float_def)
qed

lemma power_two_overflows: "int_to_float (2 ^ 1024) = Inl OverflowError"
proof -
  have "real_of_int (2 ^ 1024) = 2 ^ 1024" by (simp only: of_int_power of_int_numeral)
  moreover have "\<bar>(2::real) ^ 1024\<bar> = 2 ^ 1024"
    by (rule abs_of_nonneg) (rule zero_le_power, simp)
  ultimately have "FLOAT_INT_LIMIT \<le> \<bar>real_of_int (2 ^ 1024)\<bar>"
    using float_int_limit_upper by (simp only:)
  then show ?thesis by (simp only: int_to_float_def if_True)
qed

lemma retry_delay_overflows: "retry_delay b 1025 = Inl OverflowError"
proof -
  have "nat (1025 - 1) = 1024" by simp
  then show ?thesis by (simp only: retry_delay_def power_two_overflows sum.case)
qed

lemma sleep_step:
  assumes lt: "attempt < retries" and a0: "0 \<le> attempt"
    and scan: "scan_endpoints E symbols eps last_err tr = ((None, last1), tr1)"
    and conv: "nat attempt < 1024"
    and lo: "0 \<le> d * 2 ^ nat attempt" and hi: "d * 2 ^ nat attempt \<le> SLEEP_MAX"
  shows "fetch_loop E symbols eps retries (Finite d) attempt last_err tr =
         fetch_loop E symbols eps retries (Finite d) (attempt + 1) last1
           (tr1 @ [Sleep (d * 2 ^ nat attempt)])"
proof -
  have "retry_delay (Finite d) (attempt + 1) = Inr (Finite (d * 2 ^ nat attempt))"
    using power_two_converts [OF conv] by (simp add: retry_delay_def)
  moreover have "py_sleep (Finite (d * 2 ^ nat attempt)) = Inr (d * 2 ^ nat attempt)"
    using lo hi by (simp add: py_sleep_def)
  ultimately show ?thesis
    using lt scan by (subst fetch_loop.simps) simp
qed

lemma fetch_loop_progress:
  assumes fail: "\<forall>ep\<in>set eps. \<forall>t. yields_nothing E symbols ep t"
    and k: "k \<le> retries"
    and att: "0 \<le> attempt" "attempt \<le> k"
    and ok: "\<forall>i. nat attempt \<le> i \<and> i < nat k \<longrightarrow> i < 1024 \<and> 0 \<le> d * 2 ^ i \<and> d * 2 ^ i \<le> SLEEP_MAX"
  shows "\<exists>last' tr'.
           fetch_loop E symbols eps retries (Finite d) attempt last_err tr =
             fetch_loop E symbols eps retries (Finite d) k last' tr' \<and>
           filter is_attempt_event tr' =
             filter is_attempt_event tr @
             concat (map (\<lambda>i. map TryEndpoint eps @ [Sleep (d * 2 ^ i)]) [nat attempt..<nat k]) \<and>
           (attempt < k \<and> eps \<noteq> [] \<longrightarrow>
              (\<exists>t. last' = Some (observed_error E symbols (last eps) t) \<and>
                   tr' = snd (try_redstone_endpoint E (last eps) symbols t) @
                           [Sleep (d * 2 ^ (nat k - 1))])) \<and>
           (\<not> attempt < k \<longrightarrow> last' = last_err \<and> tr' = tr)"
  using att ok
proof (induction n \<equiv> "nat (k - attempt)" arbitrary: attempt last_err tr)
  case 0
  then have eq: "attempt = k" by simp
  show ?case
    unfolding eq by (rule exI [of _ last_err], rule exI [of _ tr]) simp
next
  case (Suc n)
  then have lt: "attempt < k" and n: "n = nat (k - (attempt + 1))"
    and a0: "0 \<le> attempt" by simp_all
  from lt k have ltr: "attempt < retries" by simp
  from scan_endpoints_nothing [OF fail, of last_err tr] obtain last1 tr1 where
    s: "scan_endpoints E symbols eps last_err tr = ((None, last1), tr1)"
    and f: "filter is_attempt_event tr1 = filter is_attempt_event tr @ map TryEndpoint eps"
    and l1: "eps \<noteq> [] \<longrightarrow>
               (\<exists>t. last1 = Some (observed_error E symbols (last eps) t) \<and>
                    tr1 = snd (try_redstone_endpoint E (last eps) symbols t))"
    by blast
  let ?delay = "d * 2 ^ nat attempt"
  from lt a0 have "nat attempt < nat k" by simp
  with Suc.prems(3) have okd: "nat attempt < 1024" "0 \<le> ?delay" "?delay \<le> SLEEP_MAX" by simp_all
  have unfold: "fetch_loop E symbols eps retries (Finite d) attempt last_err tr =
      fetch_loop E symbols eps retries (Finite d) (attempt + 1) last1 (tr1 @ [Sleep ?delay])"
    using ltr a0 s okd by (rule sleep_step)
  from a0 have a1: "0 \<le> attempt + 1" by simp
  from lt have a2: "attempt + 1 \<le> k" by simp
  have ok1: "\<forall>i. nat (attempt + 1) \<le> i \<and> i < nat k \<longrightarrow> i < 1024 \<and> 0 \<le> d * 2 ^ i \<and> d * 2 ^ i \<le> SLEEP_MAX"
  proof (intro allI impI)
    fix i assume i: "nat (attempt + 1) \<le> i \<and> i < nat k"
    with a0 have "nat attempt \<le> i \<and> i < nat k" by linarith
    with Suc.prems(3) show "i < 1024 \<and> 0 \<le> d * 2 ^ i \<and> d * 2 ^ i \<le> SLEEP_MAX" by blast
  qed
  from Suc.hyps(1) [OF n a1 a2 ok1, of last1 "tr1 @ [Sleep ?delay]"] obtain last' tr' where
    r: "fetch_loop E symbols eps retries (Finite d) (attempt + 1) last1 (tr1 @ [Sleep ?delay]) =
          fetch_loop E symbols eps retries (Finite d) k last' tr'"
    and tr: "filter is_attempt_event tr' =
        filter is_attempt_event (tr1 @ [Sleep ?delay]) @
        concat (map (\<lambda>i. map TryEndpoint eps @ [Sleep (d * 2 ^ i)]) [nat (attempt + 1)..<nat k])"
    and mre: "attempt + 1 < k \<and> eps \<noteq> [] \<longrightarrow>
          (\<exists>t. last' = Some (observed_error E symbols (last eps) t) \<and>
               tr' = snd (try_redstone_endpoint E (last eps) symbols t) @
                       [Sleep (d * 2 ^ (nat k - 1))])"
    and fin: "\<not> attempt + 1 < k \<longrightarrow> last' = last1 \<and> tr' = tr1 @ [Sleep ?delay]"
    by blast
  have lst: "eps \<noteq> [] \<longrightarrow>
          (\<exists>t. last' = Some (observed_error E symbols (last eps) t) \<and>
               tr' = snd (try_redstone_endpoint E (last eps) symbols t) @
                       [Sleep (d * 2 ^ (nat k - 1))])"
  proof (cases "attempt + 1 < k")
    case True
    with mre show ?thesis by simp
  next
    case False
    with lt have "k = attempt + 1" by simp
    with a0 have "nat k - 1 = nat attempt" by simp
    with False fin l1 show ?thesis by auto
  qed
  have suc: "nat (attempt + 1) = Suc (nat attempt)" using a0 by simp
  have "nat attempt < nat k" using lt a0 by simp
  then have upt: "[nat attempt..<nat k] = nat attempt # [Suc (nat attempt)..<nat k]"
    by (rule upt_conv_Cons)
  have t': "filter is_attempt_event tr' =
      filter is_attempt_event tr @
      concat (map (\<lambda>i. map TryEndpoint eps @ [Sleep (d * 2 ^ i)]) [nat attempt..<nat k])"
    unfolding tr upt suc using f by simp
  show ?case
    unfolding unfold r
    by (rule exI [of _ last'], rule exI [of _ tr']) (use t' lst lt in simp)
qed

lemma fetch_loop_done:
  assumes "\<not> attempt < retries"
  shows "fetch_loop E symbols eps retries b attempt last_err tr =
         (Inl (ExhaustedRetries retries last_err), tr)"
  using assms by (subst fetch_loop.simps) simp

lemma effective_endpoints_nonempty: "effective_endpoints endpoints \<noteq> []"
  by (simp add: effective_endpoints_def REDSTONE_PRICE_ENDPOINTS_def split: option.splits)

lemma wanted_example:
  "wanted_symbols [''BTC''] = [''BTC'']" "wanted_symbols [''btc''] = [''BTC'']"
  by (simp_all add: wanted_symbols_def py_strip_def is_space_def py_upper_def upper_char_def)

lemma venue_http_offline:
  "try_redstone_endpoint venue_example ep [''BTC''] t =
     (Inl (TransportError ''offline''), t @ [TryEndpoint ep, HttpGet ep ''symbols'' ''BTC''])"
  by (simp add: try_redstone_endpoint_def wanted_example venue_example_def)

lemma has_slept_attempts: "has_slept (filter is_attempt_event t) = has_slept t"
  by (induction t rule: has_slept.induct) simp_all

lemma flaky_try:
  "try_redstone_endpoint flaky_example ep [''BTC''] t =
     (Inl (TransportError (if has_slept t then ''later'' else ''first'')),
      t @ [TryEndpoint ep, HttpGet ep ''symbols'' ''BTC''])"
proof -
  have "has_slept (t @ [TryEndpoint ep]) = has_slept t"
    by (induction t rule: has_slept.induct) simp_all
  then show ?thesis
    by (simp add: try_redstone_endpoint_def wanted_example flaky_example_def)
qed

text \<open>
  C5 (amended). When every endpoint yields nothing at every point of the run, and every
  sleep can be taken (the base delay is finite and not negative, the delays
  \<open>retry_base_delay * 2 ^ i\<close> of the passes \<open>i < retries\<close> do not exceed the longest sleep,
  and \<open>retries\<close> is at most 1024), \<open>fetch_redstone_prices\<close> makes exactly \<open>retries\<close> passes
  over the endpoint list, pass \<open>i\<close> being followed by a sleep of \<open>retry_base_delay * 2 ^ i\<close>
  seconds (also the last pass), and then fails with \<open>ExhaustedRetries\<close> carrying the last
  observed error: the one of the last endpoint in the last pass, after which the run
  only sleeps.
\<close>

theorem fetch_exhausts_retries:
  assumes fail: "\<forall>ep\<in>set (effective_endpoints endpoints). \<forall>t. yields_nothing E symbols ep t"
    and base: "retry_base_delay = Finite d"
    and nonneg: "0 \<le> d"
    and range: "\<forall>i<nat retries. d * 2 ^ i \<le> SLEEP_MAX"
    and conv: "retries \<le> 1024"
  shows "(\<exists>err. fst (fetch_redstone_prices E symbols endpoints retries retry_base_delay tr) =
                 Inl (ExhaustedRetries retries err) \<and>
               (0 < retries \<longrightarrow>
                  (\<exists>t. err = Some (observed_error E symbols (last (effective_endpoints endpoints)) t) \<and>
                       snd (fetch_redstone_prices E symbols endpoints retries retry_base_delay tr) =
                         snd (try_redstone_endpoint E (last (effective_endpoints endpoints)) symbols t) @
                         [Sleep (d * 2 ^ (nat retries - 1))])) \<and>
               (retries \<le> 0 \<longrightarrow> err = None)) \<and>
         filter is_attempt_event
             (snd (fetch_redstone_prices E symbols endpoints retries retry_base_delay tr)) =
           filter is_attempt_event tr @
           concat (map (\<lambda>i. map TryEndpoint (effective_endpoints endpoints) @ [Sleep (d * 2 ^ i)])
                     [0..<nat retries])"
proof -
  let ?eps = "effective_endpoints endpoints"
  let ?run = "fetch_redstone_prices E symbols endpoints retries retry_base_delay tr"
  have f: "?run = fetch_loop E symbols ?eps retries (Finite d) 0 None tr"
    by (simp add: fetch_redstone_prices_def base)
  show ?thesis
  proof (cases "0 < retries")
    case False
    then have "?run = (Inl (ExhaustedRetries retries None), tr)"
      unfolding f by (rule fetch_loop_done)
    moreover from False have "[0..<nat retries] = []" by simp
    ultimately show ?thesis using False by simp
  next
    case True
    have ok: "\<forall>i. nat 0 \<le> i \<and> i < nat retries \<longrightarrow> i < 1024 \<and> 0 \<le> d * 2 ^ i \<and> d * 2 ^ i \<le> SLEEP_MAX"
    proof (intro allI impI)
      fix i assume i: "nat 0 \<le> i \<and> i < nat retries"
      with conv have "i < 1024" by linarith
      moreover have "0 \<le> d * 2 ^ i" using nonneg by (intro mult_nonneg_nonneg) simp_all
      moreover from i range have "d * 2 ^ i \<le> SLEEP_MAX" by simp
      ultimately show "i < 1024 \<and> 0 \<le> d * 2 ^ i \<and> d * 2 ^ i \<le> SLEEP_MAX" by simp
    qed
    have r0: "retries \<le> retries" "(0::int) \<le> 0" "0 \<le> retries" using True by simp_all
    from fetch_loop_progress [OF fail r0 ok, of None tr] obtain err tr' where
      p: "fetch_loop E symbols ?eps retries (Finite d) 0 None tr =
          fetch_loop E symbols ?eps retries (Finite d) retries err tr'"
      and t: "filter is_attempt_event tr' =
          filter is_attempt_event tr @
          concat (map (\<lambda>i. map TryEndpoint ?eps @ [Sleep (d * 2 ^ i)]) [nat 0..<nat retries])"
      and l: "0 < retries \<and> ?eps \<noteq> [] \<longrightarrow>
          (\<exists>t. err = Some (observed_error E symbols (last ?eps) t) \<and>
               tr' = snd (try_redstone_endpoint E (last ?eps) symbols t) @
                       [Sleep (d * 2 ^ (nat retries - 1))])"
      by blast
    have fin: "?run = (Inl (ExhaustedRetries retries err), tr')"
      unfolding f p by (rule fetch_loop_done) simp
    from l True effective_endpoints_nonempty [of endpoints]
    have l': "\<exists>t. err = Some (observed_error E symbols (last ?eps) t) \<and>
        tr' = snd (try_redstone_endpoint E (last ?eps) symbols t) @
                [Sleep (d * 2 ^ (nat retries - 1))]" by simp
    have ex: "\<exists>err. fst ?run = Inl (ExhaustedRetries retries err) \<and>
               (0 < retries \<longrightarrow>
                  (\<exists>t. err = Some (observed_error E symbols (last ?eps) t) \<and>
                       snd ?run = snd (try_redstone_endpoint E (last ?eps) symbols t) @
                         [Sleep (d * 2 ^ (nat retries - 1))])) \<and>
               (retries \<le> 0 \<longrightarrow> err = None)"
      unfolding fin by (rule exI [of _ err]) (use l' True in simp)
    have tr: "filter is_attempt_event (snd ?run) =
        filter is_attempt_event tr @
        concat (map (\<lambda>i. map TryEndpoint ?eps @ [Sleep (d * 2 ^ i)]) [0..<nat retries])"
      unfolding fin using t by simp
    from ex tr show ?thesis by (rule conjI)
  qed
qed

theorem fetch_exhausts_retries_witness:
  "fst (fetch_redstone_prices flaky_example [''BTC''] (Some [''https://gw.example/prices'']) 2 (1 / 2) []) =
     Inl (ExhaustedRetries 2 (Some (TransportError ''later''))) \<and>
   filter is_attempt_event
     (snd (fetch_redstone_prices flaky_example [''BTC''] (Some [''https://gw.example/prices'']) 2 (1 / 2) [])) =
     [TryEndpoint ''https://gw.example/prices'', Sleep (1 / 2),
      TryEndpoint ''https://gw.example/prices'', Sleep 1]"
proof -
  let ?ep = "''https://gw.example/prices''"
  let ?run = "fetch_redstone_prices flaky_example [''BTC''] (Some [?ep]) 2 (1 / 2) []"
  have eff: "effective_endpoints (Some [?ep]) = [?ep]" by (simp add: effective_endpoints_def)
  have fail: "\<forall>ep\<in>set (effective_endpoints (Some [?ep])). \<forall>t. yields_nothing flaky_example [''BTC''] ep t"
    unfolding eff by (simp add: yields_nothing_def flaky_try)
  have base: "(1 / 2 :: pyfloat) = Finite (1 / 2)" by simp
  have nonneg: "(0::real) \<le> 1 / 2" by simp
  have range: "\<forall>i<nat 2. (1 / 2 :: real) * 2 ^ i \<le> SLEEP_MAX"
  proof (intro allI impI)
    fix i :: nat assume "i < nat 2"
    then have "i \<le> 1" by simp
    then have "(2::real) ^ i \<le> 2 ^ 1" by (intro power_increasing) simp_all
    then show "(1 / 2 :: real) * 2 ^ i \<le> SLEEP_MAX" by (simp add: SLEEP_MAX_def)
  qed
  have conv: "(2::int) \<le> 1024" by simp
  have upt: "[0..<nat 2] = [0, 1]" by (simp add: upt_rec)
  note th = fetch_exhausts_retries [OF fail base nonneg range conv, of "[]"]
  from th [THEN conjunct2] have b: "filter is_attempt_event (snd ?run) =
     [TryEndpoint ?ep, Sleep (1 / 2), TryEndpoint ?ep, Sleep 1]"
    unfolding eff upt by simp
  from th [THEN conjunct1] obtain err t where
    r: "fst ?run = Inl (ExhaustedRetries 2 err)"
    and e: "err = Some (observed_error flaky_example [''BTC''] (last (effective_endpoints (Some [?ep]))) t)"
    and s: "snd ?run = snd (try_redstone_endpoint flaky_example (last (effective_endpoints (Some [?ep]))) [''BTC''] t) @
        [Sleep ((1 / 2) * 2 ^ (nat 2 - 1))]"
    by auto
  from s have "filter is_attempt_event (snd ?run) =
      filter is_attempt_event t @ [TryEndpoint ?ep, Sleep 1]"
    unfolding eff by (simp add: flaky_try)
  with b have "filter is_attempt_event t = [TryEndpoint ?ep, Sleep (1 / 2)]" by simp
  then have "has_slept (filter is_attempt_event t)" by simp
  then have "has_slept t" by (simp only: has_slept_attempts)
  with e have "err = Some (TransportError ''later'')"
    unfolding eff by (simp add: observed_error_def flaky_try)
  with r have a: "fst ?run = Inl (ExhaustedRetries 2 (Some (TransportError ''later'')))" by simp
  from a b show ?thesis by (rule conjI)
qed

text \<open>
  C5 as stated fails: the sleep is outside any \<^verbatim>\<open>try\<close>. A negative base delay makes the
  first sleep raise \<^verbatim>\<open>ValueError\<close>, a base delay of \<open>1e10\<close> seconds makes it raise
  \<^verbatim>\<open>OverflowError\<close>, and with 1025 retries and a base delay of zero the product of pass
  1024 raises \<^verbatim>\<open>OverflowError\<close>; none of these runs ends with \<open>ExhaustedRetries\<close>.
\<close>

theorem fetch_exhausts_retries_counterexample:
  "fst (fetch_redstone_prices venue_example [''BTC''] (Some [''https://gw.example/prices'']) 1 (- (1 / 2)) []) =
     Inl ValueError \<and>
   fst (fetch_redstone_prices venue_example [''BTC''] (Some [''https://gw.example/prices'']) 1 10000000000 []) =
     Inl OverflowError \<and>
   fst (fetch_redstone_prices venue_example [''BTC''] (Some [''https://gw.example/prices'']) 1025 0 []) =
     Inl OverflowError"
proof (intro conjI)
  let ?ep = "''https://gw.example/prices''"
  have eff: "effective_endpoints (Some [?ep]) = [?ep]" by (simp add: effective_endpoints_def)
  show "fst (fetch_redstone_prices venue_example [''BTC''] (Some [?ep]) 1 (- (1 / 2)) []) = Inl ValueError"
    unfolding fetch_redstone_prices_def eff Let_def
    by (subst fetch_loop.simps)
      (simp add: venue_http_offline retry_delay_def int_to_float_def py_sleep_def SLEEP_MAX_def)
  show "fst (fetch_redstone_prices venue_example [''BTC''] (Some [?ep]) 1 10000000000 []) = Inl OverflowError"
    unfolding fetch_redstone_prices_def eff Let_def
    by (subst fetch_loop.simps)
      (simp add: venue_http_offline retry_delay_def int_to_float_def py_sleep_def SLEEP_MAX_def)
  have fail: "\<forall>ep\<in>set [?ep]. \<forall>t. yields_nothing venue_example [''BTC''] ep t"
    by (simp add: yields_nothing_def venue_http_offline)
  have k: "(1024::int) \<le> 1025" and att: "(0::int) \<le> 0" "(0::int) \<le> 1024" by simp_all
  have ok: "\<forall>i. nat 0 \<le> i \<and> i < nat 1024 \<longrightarrow> i < 1024 \<and> 0 \<le> (0::real) * 2 ^ i \<and> 0 * 2 ^ i \<le> SLEEP_MAX"
    by (simp add: SLEEP_MAX_def)
  from fetch_loop_progress [OF fail k att ok, of None "[]"] obtain last' tr' where
    p: "fetch_loop venue_example [''BTC''] [?ep] 1025 (Finite 0) 0 None [] =
        fetch_loop venue_example [''BTC''] [?ep] 1025 (Finite 0) 1024 last' tr'" by blast
  have "fst (fetch_loop venue_example [''BTC''] [?ep] 1025 (Finite 0) 1024 last' tr') = Inl OverflowError"
    by (subst fetch_loop.simps) (simp add: venue_http_offline retry_delay_overflows)
  with p show "fst (fetch_redstone_prices venue_example [''BTC''] (Some [?ep]) 1025 0 []) = Inl OverflowError"
    unfolding fetch_redstone_prices_def eff Let_def by simp
qed

subsection \<open>The batch path\<close>

lemma batch_collect_keys:
  "fst ` set (batch_collect E items out) =
     fst ` set out \<union> {k. \<exists>item\<in>set items. \<exists>e. batch_item E item = Some (k, e)}"
proof (induction items arbitrary: out)
  case Nil
  show ?case by simp
next
  case (Cons item items)
  show ?case
  proof (cases "batch_item E item")
    case None
    with Cons.IH [of out] show ?thesis by auto
  next
    case (Some ke)
    obtain k e where ke: "ke = (k, e)" by (cases ke)
    with Some Cons.IH [of "AList.update k e out"] show ?thesis
      by (auto simp: dom_update)
  qed
qed

lemma batch_item_well_formed:
  assumes "py_getitem item ''symbol'' = Inr s" "py_getitem item ''value'' = Inr v"
    "py_float E v = Inr x"
  shows "\<exists>e. batch_item E item = Some (py_upper (py_str E s), e)"
proof -
  from assms(1) obtain kvs where "item = JDict kvs" by (cases item) simp_all
  with assms show ?thesis by (simp add: batch_item_def)
qed

text \<open>
  C10. In the batch path (a batch answer with status 200 that normalises), the
  returned mapping is what the loop collects from all the items of the answer: it has
  an entry for every item with a symbol and a value that \<^verbatim>\<open>float\<close> accepts, whether or
  not the symbol was requested.
\<close>

theorem batch_not_filtered:
  assumes wanted: "wanted_symbols symbols \<noteq> []"
    and resp: "http_get_json E (tr @ [TryEndpoint endpoint]) endpoint ''symbols''
                 (py_join '','' (wanted_symbols symbols)) = Inr (200, data)"
    and norm: "normalize_rs_payload E data = Inr items"
    and item: "item \<in> set items"
    and smb: "py_getitem item ''symbol'' = Inr s"
    and val: "py_getitem item ''value'' = Inr v"
    and num: "py_float E v = Inr x"
  shows "fst (try_redstone_endpoint E endpoint symbols tr) = Inr (batch_collect E items []) \<and>
         map_of (batch_collect E items []) (py_upper (py_str E s)) \<noteq> None"
proof -
  let ?k = "py_upper (py_str E s)"
  from batch_item_well_formed [OF smb val num] obtain e where "batch_item E item = Some (?k, e)" ..
  with item have "?k \<in> fst ` set (batch_collect E items [])"
    unfolding batch_collect_keys by blast
  then have key: "map_of (batch_collect E items []) ?k \<noteq> None"
    by (simp add: map_of_eq_None_iff)
  then have "batch_collect E items [] \<noteq> []" by auto
  with norm have "batch_result E 200 data = Some (batch_collect E items [])"
    by (simp add: batch_result_def Let_def)
  with wanted resp have "fst (try_redstone_endpoint E endpoint symbols tr) = Inr (batch_collect E items [])"
    by (simp add: try_redstone_endpoint_def Let_def)
  with key show ?thesis by simp
qed

theorem batch_not_filtered_witness:
  "wanted_symbols [''btc''] = [''BTC''] \<and>
   fst (try_redstone_endpoint feed_example ''https://gw.example/prices'' [''btc''] []) =
     Inr [(''BTC'', \<lparr>pe_value = 65000, pe_timestamp = JNum 123, pe_provider = ''x''\<rparr>),
          (''ETH'', \<lparr>pe_value = 6001 / 2, pe_timestamp = JNull, pe_provider = ''redstone''\<rparr>)]"
proof -
  let ?ep = "''https://gw.example/prices''"
  let ?btc = "JDict [(''symbol'', JStr ''BTC''), (''value'', JNum 65000),
                     (''timestamp'', JNum 123), (''provider'', JStr ''x'')]"
  let ?eth = "JDict [(''symbol'', JStr ''eth''), (''value'', JStr ''3000.5'')]"
  let ?items = "[?btc, ?eth, JDict [(''symbol'', JStr ''SOL'')], JNull]"
  have wanted: "wanted_symbols [''btc''] \<noteq> []" by (simp add: wanted_example)
  have resp: "http_get_json feed_example ([] @ [TryEndpoint ?ep]) ?ep ''symbols''
      (py_join '','' (wanted_symbols [''btc''])) = Inr (200, JList ?items)"
    by (simp add: feed_example_def)
  have norm: "normalize_rs_payload feed_example (JList ?items) = Inr ?items"
    by (simp add: normalize_rs_payload_def decode_text_def)
  have item: "?eth \<in> set ?items" by simp
  have smb: "py_getitem ?eth ''symbol'' = Inr (JStr ''eth'')" by simp
  have val: "py_getitem ?eth ''value'' = Inr (JStr ''3000.5'')" by simp
  have num: "py_float feed_example (JStr ''3000.5'') = Inr (6001 / 2)"
    by (simp add: feed_example_def)
  have collect: "batch_collect feed_example ?items [] =
     [(''BTC'', \<lparr>pe_value = 65000, pe_timestamp = JNum 123, pe_provider = ''x''\<rparr>),
      (''ETH'', \<lparr>pe_value = 6001 / 2, pe_timestamp = JNull, pe_provider = ''redstone''\<rparr>)]"
    by (simp add: batch_item_def feed_example_def py_upper_def upper_char_def)
  from batch_not_filtered [OF wanted resp norm item smb val num, THEN conjunct1]
  show ?thesis unfolding collect by (simp add: wanted_example)
qed

end
